theory Spec2Isabelle
  imports Complex_Main "HOL-Library.Monad_Syntax"
begin

section \<open>Python lists\<close>

text \<open>
  Python's \<^verbatim>\<open>xs[i]\<close>: an index from \<open>-len\<close> up to \<open>len - 1\<close> is accepted, a negative
  one counts from the end, and every other index raises \<^verbatim>\<open>IndexError\<close>. The only
  exception the modelled code can raise through a list is that one, so a computation
  that may raise returns an \<open>option\<close> and \<open>None\<close> stands for the raised exception.
\<close>

definition py_index :: "'a list \<Rightarrow> int \<Rightarrow> 'a option" where
  "py_index xs i =
     (let n = int (length xs) in
      if 0 \<le> i \<and> i < n then Some (xs ! nat i)
      else if - n \<le> i \<and> i < 0 then Some (xs ! nat (n + i))
      else None)"

definition py_store :: "'a list \<Rightarrow> int \<Rightarrow> 'a \<Rightarrow> 'a list option" where
  "py_store xs i v =
     (let n = int (length xs) in
      if 0 \<le> i \<and> i < n then Some (xs[nat i := v])
      else if - n \<le> i \<and> i < 0 then Some (xs[nat (n + i) := v])
      else None)"

section \<open>The map (map.py)\<close>

text \<open>
  A cell is the one-character string the source stores: \<^verbatim>\<open>'#'\<close> wall, \<^verbatim>\<open>'.'\<close> floor,
  \<^verbatim>\<open>'R'\<close> rough, \<^verbatim>\<open>'W'\<close> water, \<^verbatim>\<open>'T'\<close> trees, \<^verbatim>\<open>'L'\<close> lava, \<^verbatim>\<open>'S'\<close> spikes,
  \<^verbatim>\<open>'H'\<close>, \<^verbatim>\<open>'A'\<close>, \<^verbatim>\<open>'P'\<close> the pickups. The grid is a list of rows, \<^verbatim>\<open>grid[y][x]\<close>.
\<close>

record game_map =
  width :: int
  height :: int
  grid :: "char list list"

text \<open>\<^verbatim>\<open>grid[y][x]\<close> and \<^verbatim>\<open>grid[y][x] = c\<close>; the rows are separate list objects.\<close>

definition grid_get :: "char list list \<Rightarrow> int \<Rightarrow> int \<Rightarrow> char option" where
  "grid_get g x y = do { row \<leftarrow> py_index g y; py_index row x }"

definition grid_set :: "char list list \<Rightarrow> int \<Rightarrow> int \<Rightarrow> char \<Rightarrow> char list list option" where
  "grid_set g x y c = do { row \<leftarrow> py_index g y; row' \<leftarrow> py_store row x c; py_store g y row' }"

text \<open>
  The invariant the constructor establishes: \<open>height\<close> rows of \<open>width\<close> cells each
  (\<^verbatim>\<open>[['#' for _ in range(self.width)] for _ in range(self.height)]\<close>).
\<close>

definition wf_map :: "game_map \<Rightarrow> bool" where
  "wf_map m \<longleftrightarrow>
     int (length (grid m)) = height m \<and> list_all (\<lambda>row. int (length row) = width m) (grid m)"

definition is_blocked :: "game_map \<Rightarrow> int \<Rightarrow> int \<Rightarrow> bool option" where
  "is_blocked m x y =
     (if \<not> (0 \<le> x \<and> x < width m \<and> 0 \<le> y \<and> y < height m) then Some True
      else do { cell \<leftarrow> grid_get (grid m) x y; Some (cell = CHR ''#'') })"

text \<open>The float literals 0.5, 0.3, 0.7, 0.4, 0.9 and 1.0 are returned as they are written.\<close>

definition get_terrain_effect :: "game_map \<Rightarrow> int \<Rightarrow> int \<Rightarrow> real option" where
  "get_terrain_effect m x y =
     (if \<not> (0 \<le> x \<and> x < width m \<and> 0 \<le> y \<and> y < height m) then Some 1
      else do {
        terrain \<leftarrow> grid_get (grid m) x y;
        if terrain = CHR ''R'' then Some (5 / 10)
        else if terrain = CHR ''W'' then Some (3 / 10)
        else if terrain = CHR ''T'' then Some (7 / 10)
        else if terrain = CHR ''L'' then Some (4 / 10)
        else if terrain = CHR ''S'' then Some (9 / 10)
        else Some 1 })"

definition get_terrain_damage :: "game_map \<Rightarrow> int \<Rightarrow> int \<Rightarrow> int option" where
  "get_terrain_damage m x y =
     (if \<not> (0 \<le> x \<and> x < width m \<and> 0 \<le> y \<and> y < height m) then Some 0
      else do {
        terrain \<leftarrow> grid_get (grid m) x y;
        if terrain = CHR ''L'' then Some 15
        else if terrain = CHR ''S'' then Some 8
        else Some 0 })"

text \<open>
  \<^verbatim>\<open>collect_item\<close> and \<^verbatim>\<open>destroy_terrain\<close> return what they took (Python's \<^verbatim>\<open>None\<close> is the
  inner \<open>None\<close>) together with the map after the call.
\<close>

definition collect_item :: "game_map \<Rightarrow> int \<Rightarrow> int \<Rightarrow> (char option \<times> game_map) option" where
  "collect_item m x y =
     (if \<not> (0 \<le> x \<and> x < width m \<and> 0 \<le> y \<and> y < height m) then Some (None, m)
      else do {
        item \<leftarrow> grid_get (grid m) x y;
        if item \<in> set [CHR ''H'', CHR ''A'', CHR ''P''] then do {
          g' \<leftarrow> grid_set (grid m) x y (CHR ''.'');
          Some (Some item, m\<lparr>grid := g'\<rparr>) }
        else Some (None, m) })"

definition destroy_terrain :: "game_map \<Rightarrow> int \<Rightarrow> int \<Rightarrow> (char option \<times> game_map) option" where
  "destroy_terrain m x y =
     (if \<not> (0 \<le> x \<and> x < width m \<and> 0 \<le> y \<and> y < height m) then Some (None, m)
      else do {
        terrain \<leftarrow> grid_get (grid m) x y;
        if terrain = CHR ''T'' then do {
          g' \<leftarrow> grid_set (grid m) x y (CHR ''.'');
          Some (Some (CHR ''T''), m\<lparr>grid := g'\<rparr>) }
        else Some (None, m) })"

text \<open>A small map used to instantiate the theorems: a 3 by 3 grid with a pickup and a tree.\<close>

definition demo_map :: game_map where
  "demo_map = \<lparr> width = 3, height = 3, grid = [''###'', ''#HT'', ''#.#''] \<rparr>"

section \<open>The random module\<close>

text \<open>
  The source draws from Python's global generator. The model threads the generator
  through as an explicit state: an infinite sequence of raw draws, of which each call
  consumes the first. Every theorem below holds for every sequence, so for whatever
  the generator returns.
  \<^item> \<^verbatim>\<open>random.random()\<close> is a multiple of \<open>2^-53\<close> in \<open>[0, 1)\<close>;
  \<^item> \<^verbatim>\<open>random.uniform(a, b)\<close> is \<^verbatim>\<open>a + (b - a) * random()\<close>;
  \<^item> \<^verbatim>\<open>random.randint(a, b)\<close> is an integer from \<open>a\<close> to \<open>b\<close>;
  \<^item> \<^verbatim>\<open>random.choice(xs)\<close> is an element of \<open>xs\<close> (IndexError on an empty list);
  \<^item> \<^verbatim>\<open>random.shuffle(xs)\<close> swaps, for \<open>i\<close> from the last index down to 1, the
    elements at \<open>i\<close> and at a drawn index \<open>j \<le> i\<close>.
\<close>

type_synonym rng = "nat \<Rightarrow> nat"

definition rng_tail :: "rng \<Rightarrow> rng" where
  "rng_tail r = (\<lambda>n. r (Suc n))"

definition random_random :: "rng \<Rightarrow> real \<times> rng" where
  "random_random r = (real (r 0 mod 2 ^ 53) / 2 ^ 53, rng_tail r)"

definition random_uniform :: "real \<Rightarrow> real \<Rightarrow> rng \<Rightarrow> real \<times> rng" where
  "random_uniform a b r = (let (u, r') = random_random r in (a + (b - a) * u, r'))"

definition random_randint :: "int \<Rightarrow> int \<Rightarrow> rng \<Rightarrow> int \<times> rng" where
  "random_randint a b r = (a + int (r 0 mod nat (b - a + 1)), rng_tail r)"

definition random_choice :: "'a list \<Rightarrow> rng \<Rightarrow> ('a \<times> rng) option" where
  "random_choice xs r =
     (if xs = [] then None else Some (xs ! (r 0 mod length xs), rng_tail r))"

fun shuffle_from :: "nat \<Rightarrow> 'a list \<Rightarrow> rng \<Rightarrow> 'a list \<times> rng" where
  "shuffle_from 0 xs r = (xs, r)"
| "shuffle_from (Suc i) xs r =
     (let j = r 0 mod (Suc (Suc i))
      in shuffle_from i (xs[Suc i := xs ! j, j := xs ! (Suc i)]) (rng_tail r))"

definition random_shuffle :: "'a list \<Rightarrow> rng \<Rightarrow> 'a list \<times> rng" where
  "random_shuffle xs r = shuffle_from (length xs - 1) xs r"

section \<open>The product \<^verbatim>\<open>int(damage * 0.7)\<close>\<close>

text \<open>
  \<^verbatim>\<open>damage * 0.7\<close> multiplies an integer by a double: Python converts the integer to
  the nearest double, multiplies, rounds the exact product to the nearest double (ties
  to the even mantissa), and \<^verbatim>\<open>int\<close> truncates towards zero. A double is written here
  as a mantissa and a binary exponent, \<open>(m, e)\<close> for \<open>m * 2^e\<close> with \<open>m \<le> 2^53\<close>; the
  literal \<^verbatim>\<open>0.7\<close> is the double \<open>6305039478318694 * 2^-53\<close>. Doubles have 53
  mantissa bits. The model leaves out overflow (an integer of 1024 bits or more, for
  which the conversion raises OverflowError).
\<close>

definition rne_div :: "int \<Rightarrow> int \<Rightarrow> int" where
  "rne_div n d =
     (let q = n div d; r = n mod d
      in if 2 * r < d then q else if d < 2 * r then q + 1 else if even q then q else q + 1)"

function bit_length :: "int \<Rightarrow> nat" where
  "bit_length n = (if n \<le> 0 then 0 else Suc (bit_length (n div 2)))"
  by pat_completeness auto
termination
  by (relation "measure nat") auto

declare bit_length.simps [simp del]

definition round_to_double :: "int \<Rightarrow> int \<Rightarrow> int \<times> int" where
  "round_to_double n e =
     (let l = bit_length n
      in if l \<le> 53 then (n, e) else (rne_div n (2 ^ (l - 53)), e + int (l - 53)))"

definition int_times_0_7 :: "int \<Rightarrow> int" where
  "int_times_0_7 d =
     (let (m1, e1) = round_to_double \<bar>d\<bar> 0;
          (m, e) = round_to_double (m1 * 6305039478318694) (e1 - 53);
          t = (if 0 \<le> e then m * 2 ^ nat e else m div 2 ^ nat (- e))
      in if d < 0 then - t else t)"

section \<open>Status effects (status_effects.py)\<close>

datatype effect_class =
  StatusEffect | PoisonEffect | ParalysisEffect | BlindnessEffect | ConfusionEffect
  | HasteEffect | SlowEffect | RegenerationEffect | StrengthEffect | WeaknessEffect
  | ProtectionEffect

text \<open>
  Durations and intensities are Python numbers (integers at construction, floats once
  a stacking has added a random share); they are modelled as reals. The claims about
  them rest on \<open>min\<close> and \<open>max\<close> only.
\<close>

record status_effect =
  cls :: effect_class
  name :: string
  base_duration :: real
  duration :: real
  intensity :: real
  max_intensity :: real
  max_duration :: real
  applied :: bool

definition StatusEffect_init :: "effect_class \<Rightarrow> string \<Rightarrow> real \<Rightarrow> real \<Rightarrow> status_effect" where
  "StatusEffect_init c n d i =
     \<lparr> cls = c, name = n, base_duration = d, duration = d, intensity = i,
       max_intensity = i * 3, max_duration = d * 2, applied = False \<rparr>"

definition PoisonEffect_init :: "real \<Rightarrow> real \<Rightarrow> status_effect" where
  "PoisonEffect_init d i = StatusEffect_init PoisonEffect ''Poison'' d i"

definition ParalysisEffect_init :: "real \<Rightarrow> status_effect" where
  "ParalysisEffect_init d = StatusEffect_init ParalysisEffect ''Paralysis'' d 1"

definition BlindnessEffect_init :: "real \<Rightarrow> status_effect" where
  "BlindnessEffect_init d = StatusEffect_init BlindnessEffect ''Blindness'' d 1"

definition ConfusionEffect_init :: "real \<Rightarrow> status_effect" where
  "ConfusionEffect_init d = StatusEffect_init ConfusionEffect ''Confusion'' d 1"

definition HasteEffect_init :: "real \<Rightarrow> status_effect" where
  "HasteEffect_init d = StatusEffect_init HasteEffect ''Haste'' d 1"

definition SlowEffect_init :: "real \<Rightarrow> status_effect" where
  "SlowEffect_init d = StatusEffect_init SlowEffect ''Slow'' d 1"

definition RegenerationEffect_init :: "real \<Rightarrow> real \<Rightarrow> status_effect" where
  "RegenerationEffect_init d i = StatusEffect_init RegenerationEffect ''Regeneration'' d i"

definition StrengthEffect_init :: "real \<Rightarrow> real \<Rightarrow> status_effect" where
  "StrengthEffect_init d i = StatusEffect_init StrengthEffect ''Strength'' d i"

definition WeaknessEffect_init :: "real \<Rightarrow> real \<Rightarrow> status_effect" where
  "WeaknessEffect_init d i = StatusEffect_init WeaknessEffect ''Weakness'' d i"

definition ProtectionEffect_init :: "real \<Rightarrow> real \<Rightarrow> status_effect" where
  "ProtectionEffect_init d i = StatusEffect_init ProtectionEffect ''Protection'' d i"

text \<open>
  \<^verbatim>\<open>new.stack_effect(existing)\<close> changes the existing effect and leaves the new one
  alone; the model returns the existing effect after the call.
\<close>

definition stack_effect :: "status_effect \<Rightarrow> status_effect \<Rightarrow> rng \<Rightarrow> status_effect \<times> rng" where
  "stack_effect self existing_effect r =
     (if name self \<in> set [''Paralysis'', ''Blindness'', ''Confusion'', ''Haste'', ''Slow''] then
        (let (u, r') = random_uniform (5 / 10) 1 r;
             duration_extension = base_duration self * u
         in (existing_effect\<lparr>duration :=
               min (duration existing_effect + duration_extension) (max_duration existing_effect)\<rparr>, r'))
      else if name self \<in> set [''Poison'', ''Regeneration'', ''Strength'', ''Weakness'', ''Protection''] then
        (let (u, r') = random_uniform (5 / 10) 1 r;
             intensity_increase = intensity self * u
         in (existing_effect\<lparr>
               intensity :=
                 min (intensity existing_effect + intensity_increase) (max_intensity existing_effect),
               duration := max (duration existing_effect) (base_duration self)\<rparr>, r'))
      else (existing_effect, r))"

section \<open>Player and Enemy (player.py, enemy.py)\<close>

text \<open>
  The two classes declare the same position, health, status-effect list, flags and
  log; the record \<open>entity\<close> holds these, and \<open>player\<close> and \<open>enemy\<close> extend it with
  their own fields. Attributes that only some enemy classes set (\<^verbatim>\<open>speed\<close>,
  \<^verbatim>\<open>preferred_distance\<close>, \<^verbatim>\<open>heal_cooldown\<close>, \<^verbatim>\<open>heal_range\<close>, \<^verbatim>\<open>detection_range\<close>) are
  options: reading one that is absent raises AttributeError, which is \<open>None\<close> as for
  the other exceptions. The action lists and the player's weapon slot are not read by
  the methods modelled here and are left out.
\<close>

record entity =
  xpos :: int
  ypos :: int
  health :: int
  status_effects :: "status_effect list"
  paralyzed :: bool
  blinded :: bool
  confused :: bool
  hasted :: bool
  slowed :: bool
  strengthened :: bool
  weakened :: bool
  protected :: bool
  combat_log :: "string list"

record player = entity +
  max_health :: int
  mana :: int
  max_mana :: int
  mana_regeneration :: int

datatype enemy_class = Enemy | FastEnemy | TankEnemy | SniperEnemy | HealerEnemy | StealthEnemy

record enemy = entity +
  enemy_cls :: enemy_class
  move_cooldown :: int
  strategy :: string
  speed :: "int option"
  preferred_distance :: "int option"
  heal_cooldown :: "int option"
  heal_range :: "int option"
  detection_range :: "int option"

definition Player_init :: "int \<Rightarrow> int \<Rightarrow> int \<Rightarrow> player" where
  "Player_init px py h =
     \<lparr> xpos = px, ypos = py, health = h, status_effects = [],
       paralyzed = False, blinded = False, confused = False, hasted = False, slowed = False,
       strengthened = False, weakened = False, protected = False, combat_log = [],
       max_health = h, mana = 50, max_mana = 50, mana_regeneration = 5 \<rparr>"

definition Enemy_init :: "int \<Rightarrow> int \<Rightarrow> int \<Rightarrow> rng \<Rightarrow> (enemy \<times> rng) option" where
  "Enemy_init ex ey h r = do {
     (s, r') \<leftarrow> random_choice [''direct'', ''flanking'', ''circling''] r;
     Some (\<lparr> xpos = ex, ypos = ey, health = h, status_effects = [],
       paralyzed = False, blinded = False, confused = False, hasted = False, slowed = False,
       strengthened = False, weakened = False, protected = False, combat_log = [],
       enemy_cls = Enemy, move_cooldown = 0, strategy = s, speed = None,
       preferred_distance = None, heal_cooldown = None, heal_range = None,
       detection_range = None \<rparr>, r') }"

definition FastEnemy_init :: "int \<Rightarrow> int \<Rightarrow> rng \<Rightarrow> (enemy \<times> rng) option" where
  "FastEnemy_init ex ey r = do {
     (e, r') \<leftarrow> Enemy_init ex ey 30 r;
     Some (e\<lparr>enemy_cls := FastEnemy, move_cooldown := 0, strategy := ''direct'', speed := Some 2\<rparr>, r') }"

definition TankEnemy_init :: "int \<Rightarrow> int \<Rightarrow> rng \<Rightarrow> (enemy \<times> rng) option" where
  "TankEnemy_init ex ey r = do {
     (e, r') \<leftarrow> Enemy_init ex ey 150 r;
     Some (e\<lparr>enemy_cls := TankEnemy, move_cooldown := 0, strategy := ''circling'', speed := Some 3\<rparr>, r') }"

definition SniperEnemy_init :: "int \<Rightarrow> int \<Rightarrow> rng \<Rightarrow> (enemy \<times> rng) option" where
  "SniperEnemy_init ex ey r = do {
     (e, r') \<leftarrow> Enemy_init ex ey 40 r;
     Some (e\<lparr>enemy_cls := SniperEnemy, move_cooldown := 0, strategy := ''flanking'', speed := Some 2,
             preferred_distance := Some 8\<rparr>, r') }"

definition HealerEnemy_init :: "int \<Rightarrow> int \<Rightarrow> rng \<Rightarrow> (enemy \<times> rng) option" where
  "HealerEnemy_init ex ey r = do {
     (e, r') \<leftarrow> Enemy_init ex ey 50 r;
     Some (e\<lparr>enemy_cls := HealerEnemy, move_cooldown := 0, strategy := ''flanking'', speed := Some 2,
             heal_cooldown := Some 0, heal_range := Some 5\<rparr>, r') }"

definition StealthEnemy_init :: "int \<Rightarrow> int \<Rightarrow> rng \<Rightarrow> (enemy \<times> rng) option" where
  "StealthEnemy_init ex ey r = do {
     (e, r') \<leftarrow> Enemy_init ex ey 35 r;
     Some (e\<lparr>enemy_cls := StealthEnemy, move_cooldown := 0, strategy := ''flanking'', speed := Some 1,
             detection_range := Some 6\<rparr>, r') }"

text \<open>\<^verbatim>\<open>get_entity_name\<close>: the literal \<^verbatim>\<open>"Player"\<close>, and the class name of an enemy.\<close>

definition Player_get_entity_name :: "player \<Rightarrow> string" where
  "Player_get_entity_name p = ''Player''"

definition Enemy_get_entity_name :: "enemy \<Rightarrow> string" where
  "Enemy_get_entity_name e =
     (case enemy_cls e of
        Enemy \<Rightarrow> ''Enemy'' | FastEnemy \<Rightarrow> ''FastEnemy'' | TankEnemy \<Rightarrow> ''TankEnemy''
      | SniperEnemy \<Rightarrow> ''SniperEnemy'' | HealerEnemy \<Rightarrow> ''HealerEnemy''
      | StealthEnemy \<Rightarrow> ''StealthEnemy'')"

text \<open>
  \<^verbatim>\<open>take_damage\<close>. The player's version clamps the health at 0, the enemy's version
  ends after the subtraction.
\<close>

definition Player_take_damage :: "player \<Rightarrow> int \<Rightarrow> bool \<Rightarrow> player" where
  "Player_take_damage p damage ignore_protection =
     (let damage = (if protected p \<and> \<not> ignore_protection then int_times_0_7 damage else damage);
          p = p\<lparr>health := health p - damage\<rparr>
      in if health p < 0 then p\<lparr>health := 0\<rparr> else p)"

definition Enemy_take_damage :: "enemy \<Rightarrow> int \<Rightarrow> bool \<Rightarrow> enemy" where
  "Enemy_take_damage e damage ignore_protection =
     (let damage = (if protected e \<and> \<not> ignore_protection then int_times_0_7 damage else damage)
      in e\<lparr>health := health e - damage\<rparr>)"

text \<open>
  \<^verbatim>\<open>apply_effect\<close> is the hook each effect class overrides: it sets the entity's flag and
  logs a line under the entity's display name \<open>nm\<close>. Poison, Regeneration and the base
  class do nothing when applied.
\<close>

definition apply_effect :: "status_effect \<Rightarrow> string \<Rightarrow> 'a entity_scheme \<Rightarrow> 'a entity_scheme" where
  "apply_effect eff nm ent =
     (case cls eff of
        StatusEffect \<Rightarrow> ent
      | PoisonEffect \<Rightarrow> ent
      | RegenerationEffect \<Rightarrow> ent
      | ParalysisEffect \<Rightarrow>
          ent\<lparr>paralyzed := True, combat_log := combat_log ent @ [nm @ '' is paralyzed!'']\<rparr>
      | BlindnessEffect \<Rightarrow>
          ent\<lparr>blinded := True, combat_log := combat_log ent @ [nm @ '' is blinded!'']\<rparr>
      | ConfusionEffect \<Rightarrow>
          ent\<lparr>confused := True, combat_log := combat_log ent @ [nm @ '' is confused!'']\<rparr>
      | HasteEffect \<Rightarrow>
          ent\<lparr>hasted := True, combat_log := combat_log ent @ [nm @ '' is hasted!'']\<rparr>
      | SlowEffect \<Rightarrow>
          ent\<lparr>slowed := True, combat_log := combat_log ent @ [nm @ '' is slowed!'']\<rparr>
      | StrengthEffect \<Rightarrow>
          ent\<lparr>strengthened := True, combat_log := combat_log ent @ [nm @ '' is strengthened!'']\<rparr>
      | WeaknessEffect \<Rightarrow>
          ent\<lparr>weakened := True, combat_log := combat_log ent @ [nm @ '' is weakened!'']\<rparr>
      | ProtectionEffect \<Rightarrow>
          ent\<lparr>protected := True, combat_log := combat_log ent @ [nm @ '' is protected!'']\<rparr>)"

text \<open>The first effect of the list with the given name (the \<^verbatim>\<open>for ... break\<close> search).\<close>

fun find_effect :: "string \<Rightarrow> status_effect list \<Rightarrow> nat option" where
  "find_effect n [] = None"
| "find_effect n (e # es) =
     (if name e = n then Some 0 else map_option Suc (find_effect n es))"

text \<open>
  \<^verbatim>\<open>apply_status_effect\<close>, the same text in both classes up to the display name: an
  effect whose name is already in the list is stacked into the listed one, in place; a
  new name is appended and its \<^verbatim>\<open>apply_effect\<close> hook runs.
\<close>

definition apply_status_effect ::
  "string \<Rightarrow> 'a entity_scheme \<Rightarrow> status_effect \<Rightarrow> rng \<Rightarrow> 'a entity_scheme \<times> rng" where
  "apply_status_effect nm ent effect r =
     (case find_effect (name effect) (status_effects ent) of
        Some i \<Rightarrow>
          (let (existing_effect, r') = stack_effect effect (status_effects ent ! i) r
           in (ent\<lparr>status_effects := (status_effects ent)[i := existing_effect],
                   combat_log := combat_log ent @ [nm @ '' '' @ name effect @ '' effect intensified!'']\<rparr>,
               r'))
      | None \<Rightarrow>
          (let ent = ent\<lparr>status_effects := status_effects ent @ [effect]\<rparr>;
               ent = apply_effect effect nm ent
           in (ent\<lparr>combat_log := combat_log ent @ [nm @ '' is affected by '' @ name effect @ ''!'']\<rparr>,
               r)))"

definition Player_apply_status_effect :: "player \<Rightarrow> status_effect \<Rightarrow> rng \<Rightarrow> player \<times> rng" where
  "Player_apply_status_effect p effect r = apply_status_effect (Player_get_entity_name p) p effect r"

definition Enemy_apply_status_effect :: "enemy \<Rightarrow> status_effect \<Rightarrow> rng \<Rightarrow> enemy \<times> rng" where
  "Enemy_apply_status_effect e effect r = apply_status_effect (Enemy_get_entity_name e) e effect r"

text \<open>Applying \<open>n\<close> copies of an effect, one call after the other.\<close>

fun apply_copies ::
  "nat \<Rightarrow> string \<Rightarrow> 'a entity_scheme \<Rightarrow> status_effect \<Rightarrow> rng \<Rightarrow> 'a entity_scheme \<times> rng" where
  "apply_copies 0 nm ent effect r = (ent, r)"
| "apply_copies (Suc n) nm ent effect r =
     (let (ent', r') = apply_status_effect nm ent effect r in apply_copies n nm ent' effect r')"

section \<open>Entities used to instantiate the theorems\<close>

definition demo_rng :: rng where
  "demo_rng = (\<lambda>n. 0)"

definition demo_player :: player where
  "demo_player = Player_init 0 0 100"

text \<open>The enemy \<^verbatim>\<open>Enemy(1, 1, health=50)\<close> of the repository's test scripts.\<close>

definition demo_enemy :: enemy where
  "demo_enemy =
     \<lparr> xpos = 1, ypos = 1, health = 50, status_effects = [],
       paralyzed = False, blinded = False, confused = False, hasted = False, slowed = False,
       strengthened = False, weakened = False, protected = False, combat_log = [],
       enemy_cls = Enemy, move_cooldown = 0, strategy = ''direct'', speed = None,
       preferred_distance = None, heal_cooldown = None, heal_range = None,
       detection_range = None \<rparr>"

text \<open>
  The player after \<^verbatim>\<open>apply_status_effect(ProtectionEffect(duration=2, intensity=1.0))\<close>
  and 95 points of damage that ignore protection: protected, with 5 health left.
\<close>

definition protected_player :: player where
  "protected_player =
     Player_take_damage
       (fst (Player_apply_status_effect demo_player (ProtectionEffect_init 2 1) demo_rng)) 95 True"

text \<open>The test enemy after \<^verbatim>\<open>apply_status_effect(ProtectionEffect(duration=2, intensity=1.0))\<close>.\<close>

definition protected_enemy :: enemy where
  "protected_enemy = fst (Enemy_apply_status_effect demo_enemy (ProtectionEffect_init 2 1) demo_rng)"

section \<open>The invariant of stacking\<close>

text \<open>
  What holds of a status-effect list once an intensity-class effect named \<open>n\<close>, built
  with duration \<open>d\<close> and intensity \<open>i\<close>, has been applied: one effect of that name is
  listed, its intensity cap is \<open>3 * i\<close> (set when it was constructed) and bounds its
  intensity, and its duration is at most \<open>d\<close>.
\<close>

definition stacked_once :: "string \<Rightarrow> real \<Rightarrow> real \<Rightarrow> status_effect list \<Rightarrow> bool" where
  "stacked_once n d i fx \<longleftrightarrow>
     length (filter (\<lambda>e. name e = n) fx) = 1 \<and>
     list_all (\<lambda>e. name e = n \<longrightarrow> max_intensity e = i * 3 \<and> intensity e \<le> i * 3 \<and> duration e \<le> d) fx"

section \<open>Combat mode of the game (game.py)\<close>

text \<open>Decimal digits of an integer, for the f-strings that print one.\<close>

function str_nat :: "nat \<Rightarrow> string" where
  "str_nat n = (if n < 10 then [char_of (48 + n)] else str_nat (n div 10) @ [char_of (48 + n mod 10)])"
  by pat_completeness auto
termination
  by (relation "measure id") auto

declare str_nat.simps [simp del]

definition str_int :: "int \<Rightarrow> string" where
  "str_int i = (if i < 0 then ''-'' @ str_nat (nat (- i)) else str_nat (nat i))"

text \<open>
  The turn order lists the player object and the enemy objects of the roster; an entry
  names the player or the enemy by its place in the roster when the order was built.
  Only the fields that the combat bookkeeping reads or writes are kept.
\<close>

datatype turn_entry = PlayerTurn | EnemyTurn nat

record game =
  combat_mode :: bool
  turn_order :: "turn_entry list"
  current_turn_index :: int
  game_combat_log :: "string list"
  the_player :: player
  enemies :: "enemy list"
  status_message :: string
  activity_log :: "string list"
  max_log_entries :: int

definition check_combat_start :: "game \<Rightarrow> bool" where
  "check_combat_start g =
     list_ex (\<lambda>e. \<bar>xpos (the_player g) - xpos e\<bar> + \<bar>ypos (the_player g) - ypos e\<bar> \<le> 1) (enemies g)"

definition build_turn_order :: "game \<Rightarrow> game" where
  "build_turn_order g = g\<lparr>turn_order := PlayerTurn # map EnemyTurn [0 ..< length (enemies g)]\<rparr>"

text \<open>\<^verbatim>\<open>(self.current_turn_index // len(self.turn_order)) + 1\<close>: ZeroDivisionError on an empty order.\<close>

definition get_current_turn_number :: "game \<Rightarrow> int option" where
  "get_current_turn_number g =
     (if turn_order g = [] then None
      else Some (current_turn_index g div int (length (turn_order g)) + 1))"

definition log_combat_event :: "game \<Rightarrow> string \<Rightarrow> game option" where
  "log_combat_event g event = do {
     n \<leftarrow> get_current_turn_number g;
     let cl = game_combat_log g @ [''Turn '' @ str_int n @ '': '' @ event];
     let cl = (if length cl > 20 then tl cl else cl);
     let al = activity_log g @ [event];
     let al = (if int (length al) > max_log_entries g then tl al else al);
     Some (g\<lparr>game_combat_log := cl, activity_log := al\<rparr>) }"

definition enter_combat :: "game \<Rightarrow> game option" where
  "enter_combat g = do {
     let g = g\<lparr>combat_mode := True\<rparr>;
     let g = build_turn_order g;
     let g = g\<lparr>current_turn_index := 0, game_combat_log := []\<rparr>;
     g \<leftarrow> log_combat_event g ''Combat started!'';
     Some (g\<lparr>status_message := ''Combat started! Select an action.''\<rparr>) }"

definition exit_combat :: "game \<Rightarrow> game" where
  "exit_combat g =
     g\<lparr>combat_mode := False, turn_order := [], current_turn_index := 0, game_combat_log := [],
       status_message := ''Combat ended!''\<rparr>"

definition check_combat_end :: "game \<Rightarrow> game option" where
  "check_combat_end g =
     (if enemies g = [] then do {
        g \<leftarrow> log_combat_event g ''All enemies defeated!'';
        Some (exit_combat g) }
      else if health (the_player g) \<le> 0 then do {
        g \<leftarrow> log_combat_event g ''Player defeated!'';
        Some (exit_combat g) }
      else Some g)"

text \<open>
  The scenario of the combat-exit property: exploration with the player next to the
  sole enemy, combat entered, and the enemy's health then set to 0.
\<close>

definition demo_game :: game where
  "demo_game =
     \<lparr> combat_mode = False, turn_order = [], current_turn_index = 0, game_combat_log = [],
       the_player = Player_init 1 2 100, enemies = [demo_enemy],
       status_message = ''Welcome'', activity_log = [], max_log_entries = 10 \<rparr>"

definition sole_enemy_dead :: "game \<Rightarrow> game" where
  "sole_enemy_dead g = g\<lparr>enemies := map (\<lambda>e. e\<lparr>health := 0\<rparr>) (enemies g)\<rparr>"

section \<open>Enemy movement (enemy.py)\<close>

text \<open>
  \<^verbatim>\<open>move_towards(target_x, target_y, game_map, player, all_enemies)\<close> is called on one
  enemy of the roster with the roster as \<^verbatim>\<open>all_enemies\<close>. The model passes the enemy
  that moves (\<open>self\<close>) and the other members of the roster (\<open>others\<close>, those for which
  \<^verbatim>\<open>enemy is not self\<close> holds), and returns both: the healer changes the others.
\<close>

definition can_act :: "enemy \<Rightarrow> rng \<Rightarrow> bool \<times> rng" where
  "can_act self r =
     (if paralyzed self then (False, r)
      else if slowed self then
        (let (u, r') = random_random r in if u < 5 / 10 then (False, r') else (True, r'))
      else (True, r))"

definition would_collide_with_enemy :: "int \<Rightarrow> int \<Rightarrow> enemy list \<Rightarrow> bool" where
  "would_collide_with_enemy cx cy others = list_ex (\<lambda>e. xpos e = cx \<and> ypos e = cy) others"

text \<open>
  The block the source repeats for every attempted step: the three tests on the
  destination, the terrain damage, the assignment of the one coordinate that changes.
  The result says whether the step was taken.
\<close>

definition try_step_x ::
  "game_map \<Rightarrow> player \<Rightarrow> enemy list \<Rightarrow> enemy \<Rightarrow> int \<Rightarrow> (enemy \<times> bool) option" where
  "try_step_x game_map p others self new_x = do {
     blocked \<leftarrow> is_blocked game_map new_x (ypos self);
     if \<not> blocked \<and> \<not> (new_x = xpos p \<and> ypos self = ypos p) \<and>
        \<not> would_collide_with_enemy new_x (ypos self) others
     then do {
       terrain_damage \<leftarrow> get_terrain_damage game_map new_x (ypos self);
       let self = (if terrain_damage > 0 then Enemy_take_damage self terrain_damage False else self);
       Some (self\<lparr>xpos := new_x\<rparr>, True) }
     else Some (self, False) }"

definition try_step_y ::
  "game_map \<Rightarrow> player \<Rightarrow> enemy list \<Rightarrow> enemy \<Rightarrow> int \<Rightarrow> (enemy \<times> bool) option" where
  "try_step_y game_map p others self new_y = do {
     blocked \<leftarrow> is_blocked game_map (xpos self) new_y;
     if \<not> blocked \<and> \<not> (xpos self = xpos p \<and> new_y = ypos p) \<and>
        \<not> would_collide_with_enemy (xpos self) new_y others
     then do {
       terrain_damage \<leftarrow> get_terrain_damage game_map (xpos self) new_y;
       let self = (if terrain_damage > 0 then Enemy_take_damage self terrain_damage False else self);
       Some (self\<lparr>ypos := new_y\<rparr>, True) }
     else Some (self, False) }"

definition direct_move ::
  "enemy \<Rightarrow> int \<Rightarrow> int \<Rightarrow> game_map \<Rightarrow> player \<Rightarrow> enemy list \<Rightarrow> enemy option" where
  "direct_move self dx dy game_map p others =
     (if \<bar>dx\<bar> > \<bar>dy\<bar> then do {
        (self, moved) \<leftarrow> try_step_x game_map p others self (xpos self + (if dx > 0 then 1 else - 1));
        if moved then Some self
        else do {
          (self, moved) \<leftarrow> try_step_y game_map p others self (ypos self + (if dy > 0 then 1 else - 1));
          Some self } }
      else do {
        (self, moved) \<leftarrow> try_step_y game_map p others self (ypos self + (if dy > 0 then 1 else - 1));
        if moved then Some self
        else do {
          (self, moved) \<leftarrow> try_step_x game_map p others self (xpos self + (if dx > 0 then 1 else - 1));
          Some self } })"

definition flanking_move ::
  "enemy \<Rightarrow> int \<Rightarrow> int \<Rightarrow> game_map \<Rightarrow> player \<Rightarrow> enemy list \<Rightarrow> rng \<Rightarrow> (enemy \<times> rng) option" where
  "flanking_move self dx dy game_map p others r =
     (if \<bar>dx\<bar> > \<bar>dy\<bar> then do {
        let (u, r) = random_random r;
        (self, moved) \<leftarrow> try_step_y game_map p others self (ypos self + (if u > 5 / 10 then 1 else - 1));
        if moved then Some (self, r)
        else do { self \<leftarrow> direct_move self dx dy game_map p others; Some (self, r) } }
      else do {
        let (u, r) = random_random r;
        (self, moved) \<leftarrow> try_step_x game_map p others self (xpos self + (if u > 5 / 10 then 1 else - 1));
        if moved then Some (self, r)
        else do { self \<leftarrow> direct_move self dx dy game_map p others; Some (self, r) } })"

definition circling_move ::
  "enemy \<Rightarrow> int \<Rightarrow> int \<Rightarrow> game_map \<Rightarrow> player \<Rightarrow> enemy list \<Rightarrow> enemy option" where
  "circling_move self dx dy game_map p others = do {
     let circle_dir = (if (xpos self + ypos self) mod 2 = 0 then 1 else - 1);
     (self, moved) \<leftarrow>
       (if \<bar>dx\<bar> > \<bar>dy\<bar> then try_step_y game_map p others self (ypos self + circle_dir)
        else try_step_x game_map p others self (xpos self + circle_dir));
     if moved then Some self else direct_move self dx dy game_map p others }"

text \<open>The base class: the strategy may be re-rolled, and the cooldown is drawn from 0 to 2.\<close>

definition Enemy_move_towards ::
  "enemy \<Rightarrow> int \<Rightarrow> int \<Rightarrow> game_map \<Rightarrow> player \<Rightarrow> enemy list \<Rightarrow> rng \<Rightarrow>
     (enemy \<times> enemy list \<times> rng) option" where
  "Enemy_move_towards self target_x target_y game_map p others r =
     (let (act, r) = can_act self r in
      if \<not> act then Some (self, others, r)
      else if move_cooldown self > 0 then
        Some (self\<lparr>move_cooldown := move_cooldown self - 1\<rparr>, others, r)
      else do {
        let dx = target_x - xpos self;
        let dy = target_y - ypos self;
        (self, r) \<leftarrow>
          (if strategy self = ''direct'' then
             do { self \<leftarrow> direct_move self dx dy game_map p others; Some (self, r) }
           else if strategy self = ''flanking'' then flanking_move self dx dy game_map p others r
           else if strategy self = ''circling'' then
             do { self \<leftarrow> circling_move self dx dy game_map p others; Some (self, r) }
           else Some (self, r));
        let (u, r) = random_random r;
        (self, r) \<leftarrow>
          (if u < 5 / 100 then do {
             (s, r) \<leftarrow> random_choice [''direct'', ''flanking'', ''circling''] r;
             Some (self\<lparr>strategy := s\<rparr>, r) }
           else Some (self, r));
        let (c, r) = random_randint 0 2 r;
        Some (self\<lparr>move_cooldown := c\<rparr>, others, r) })"

definition FastEnemy_move_towards ::
  "enemy \<Rightarrow> int \<Rightarrow> int \<Rightarrow> game_map \<Rightarrow> player \<Rightarrow> enemy list \<Rightarrow> rng \<Rightarrow>
     (enemy \<times> enemy list \<times> rng) option" where
  "FastEnemy_move_towards self target_x target_y game_map p others r =
     (let (act, r) = can_act self r in
      if \<not> act then Some (self, others, r)
      else if move_cooldown self > 0 then
        Some (self\<lparr>move_cooldown := move_cooldown self - 1\<rparr>, others, r)
      else do {
        let dx = target_x - xpos self;
        let dy = target_y - ypos self;
        self \<leftarrow> direct_move self dx dy game_map p others;
        s \<leftarrow> speed self;
        Some (self\<lparr>move_cooldown := s - 1\<rparr>, others, r) })"

definition TankEnemy_move_towards ::
  "enemy \<Rightarrow> int \<Rightarrow> int \<Rightarrow> game_map \<Rightarrow> player \<Rightarrow> enemy list \<Rightarrow> rng \<Rightarrow>
     (enemy \<times> enemy list \<times> rng) option" where
  "TankEnemy_move_towards self target_x target_y game_map p others r =
     (let (act, r) = can_act self r in
      if \<not> act then Some (self, others, r)
      else if move_cooldown self > 0 then
        Some (self\<lparr>move_cooldown := move_cooldown self - 1\<rparr>, others, r)
      else do {
        let dx = target_x - xpos self;
        let dy = target_y - ypos self;
        self \<leftarrow> circling_move self dx dy game_map p others;
        s \<leftarrow> speed self;
        Some (self\<lparr>move_cooldown := s - 1\<rparr>, others, r) })"

definition SniperEnemy_move_towards ::
  "enemy \<Rightarrow> int \<Rightarrow> int \<Rightarrow> game_map \<Rightarrow> player \<Rightarrow> enemy list \<Rightarrow> rng \<Rightarrow>
     (enemy \<times> enemy list \<times> rng) option" where
  "SniperEnemy_move_towards self target_x target_y game_map p others r =
     (let (act, r) = can_act self r in
      if \<not> act then Some (self, others, r)
      else if move_cooldown self > 0 then
        Some (self\<lparr>move_cooldown := move_cooldown self - 1\<rparr>, others, r)
      else do {
        let dx = target_x - xpos self;
        let dy = target_y - ypos self;
        let distance = \<bar>dx\<bar> + \<bar>dy\<bar>;
        pd \<leftarrow> preferred_distance self;
        (self, r) \<leftarrow>
          (if distance < pd then
             (if \<bar>dx\<bar> > \<bar>dy\<bar> then do {
                (self, moved) \<leftarrow>
                  try_step_x game_map p others self (xpos self - (if dx > 0 then 1 else - 1));
                Some (self, r) }
              else do {
                (self, moved) \<leftarrow>
                  try_step_y game_map p others self (ypos self - (if dy > 0 then 1 else - 1));
                Some (self, r) })
           else flanking_move self dx dy game_map p others r);
        s \<leftarrow> speed self;
        Some (self\<lparr>move_cooldown := s - 1\<rparr>, others, r) })"

text \<open>
  \<^verbatim>\<open>_try_heal_allies\<close>: every other enemy within \<^verbatim>\<open>heal_range\<close> (Manhattan) and under
  50 health gains 20, capped at 100; a heal sets the healer's cooldown to 8.
\<close>

definition try_heal_allies :: "enemy \<Rightarrow> enemy list \<Rightarrow> (enemy \<times> enemy list) option" where
  "try_heal_allies self others = do {
     hr \<leftarrow> heal_range self;
     let needs = (\<lambda>e. \<bar>xpos e - xpos self\<bar> + \<bar>ypos e - ypos self\<bar> \<le> hr \<and> health e < 50);
     let others' = map (\<lambda>e. if needs e then e\<lparr>health := min (health e + 20) 100\<rparr> else e) others;
     Some (if list_ex needs others then self\<lparr>heal_cooldown := Some 8\<rparr> else self, others') }"

definition HealerEnemy_move_towards ::
  "enemy \<Rightarrow> int \<Rightarrow> int \<Rightarrow> game_map \<Rightarrow> player \<Rightarrow> enemy list \<Rightarrow> rng \<Rightarrow>
     (enemy \<times> enemy list \<times> rng) option" where
  "HealerEnemy_move_towards self target_x target_y game_map p others r =
     (let (act, r) = can_act self r in
      if \<not> act then Some (self, others, r)
      else if move_cooldown self > 0 then
        Some (self\<lparr>move_cooldown := move_cooldown self - 1\<rparr>, others, r)
      else do {
        hc \<leftarrow> heal_cooldown self;
        (self, others) \<leftarrow> (if hc \<le> 0 then try_heal_allies self others else Some (self, others));
        let dx = target_x - xpos self;
        let dy = target_y - ypos self;
        (self, r) \<leftarrow> flanking_move self dx dy game_map p others r;
        s \<leftarrow> speed self;
        let self = self\<lparr>move_cooldown := s - 1\<rparr>;
        hc \<leftarrow> heal_cooldown self;
        Some (self\<lparr>heal_cooldown := Some (max 0 (hc - 1))\<rparr>, others, r) })"

definition StealthEnemy_move_towards ::
  "enemy \<Rightarrow> int \<Rightarrow> int \<Rightarrow> game_map \<Rightarrow> player \<Rightarrow> enemy list \<Rightarrow> rng \<Rightarrow>
     (enemy \<times> enemy list \<times> rng) option" where
  "StealthEnemy_move_towards self target_x target_y game_map p others r =
     (let (act, r) = can_act self r in
      if \<not> act then Some (self, others, r)
      else if move_cooldown self > 0 then
        Some (self\<lparr>move_cooldown := move_cooldown self - 1\<rparr>, others, r)
      else do {
        let dx = target_x - xpos self;
        let dy = target_y - ypos self;
        let distance = \<bar>dx\<bar> + \<bar>dy\<bar>;
        dr \<leftarrow> detection_range self;
        (self, r) \<leftarrow>
          (if distance \<le> dr then flanking_move self dx dy game_map p others r
           else
             (let (u, r) = random_random r in
              if u < 3 / 10 then
                do { self \<leftarrow> direct_move self dx dy game_map p others; Some (self, r) }
              else Some (self, r)));
        s \<leftarrow> speed self;
        Some (self\<lparr>move_cooldown := s - 1\<rparr>, others, r) })"

text \<open>The method call \<^verbatim>\<open>enemy.move_towards(...)\<close> dispatches on the enemy's class.\<close>

definition move_towards ::
  "enemy \<Rightarrow> int \<Rightarrow> int \<Rightarrow> game_map \<Rightarrow> player \<Rightarrow> enemy list \<Rightarrow> rng \<Rightarrow>
     (enemy \<times> enemy list \<times> rng) option" where
  "move_towards self target_x target_y game_map p others r =
     (case enemy_cls self of
        Enemy \<Rightarrow> Enemy_move_towards self target_x target_y game_map p others r
      | FastEnemy \<Rightarrow> FastEnemy_move_towards self target_x target_y game_map p others r
      | TankEnemy \<Rightarrow> TankEnemy_move_towards self target_x target_y game_map p others r
      | SniperEnemy \<Rightarrow> SniperEnemy_move_towards self target_x target_y game_map p others r
      | HealerEnemy \<Rightarrow> HealerEnemy_move_towards self target_x target_y game_map p others r
      | StealthEnemy \<Rightarrow> StealthEnemy_move_towards self target_x target_y game_map p others r)"

text \<open>
  An enemy as its class's constructor leaves it: the attributes its \<^verbatim>\<open>move_towards\<close>
  reads are set.
\<close>

definition wf_enemy :: "enemy \<Rightarrow> bool" where
  "wf_enemy e =
     (case enemy_cls e of
        Enemy \<Rightarrow> True
      | FastEnemy \<Rightarrow> speed e \<noteq> None
      | TankEnemy \<Rightarrow> speed e \<noteq> None
      | SniperEnemy \<Rightarrow> speed e \<noteq> None \<and> preferred_distance e \<noteq> None
      | HealerEnemy \<Rightarrow> speed e \<noteq> None \<and> heal_cooldown e \<noteq> None \<and> heal_range e \<noteq> None
      | StealthEnemy \<Rightarrow> speed e \<noteq> None \<and> detection_range e \<noteq> None)"

text \<open>
  What a movement step may change of the enemy that moves: its position and its
  health (terrain damage), nothing else.
\<close>

definition moved_from :: "enemy \<Rightarrow> enemy \<Rightarrow> bool" where
  "moved_from self self' \<longleftrightarrow> self'\<lparr>xpos := xpos self, ypos := ypos self, health := health self\<rparr> = self"

text \<open>A room of 3 by 3 floor cells inside a wall, and enemies placed in it.\<close>

definition room_map :: game_map where
  "room_map = \<lparr> width = 5, height = 5, grid = [''#####'', ''#...#'', ''#...#'', ''#...#'', ''#####''] \<rparr>"

definition paralyzed_fast_enemy :: enemy where
  "paralyzed_fast_enemy =
     demo_enemy\<lparr>paralyzed := True, enemy_cls := FastEnemy, move_cooldown := 1, speed := Some 2\<rparr>"

definition fast_enemy :: enemy where
  "fast_enemy = demo_enemy\<lparr>enemy_cls := FastEnemy, speed := Some 2\<rparr>"

section \<open>Weapons (weapons.py)\<close>

text \<open>
  The pistol, the rail gun and the grenade launcher; the field \<^verbatim>\<open>range\<close> is named
  \<open>range_cells\<close> here. Times are the readings of \<^verbatim>\<open>time.time()\<close>, passed in: \<open>t_check\<close> is
  the one \<^verbatim>\<open>can_shoot\<close> reads, \<open>t_fire\<close> the one stored as \<^verbatim>\<open>last_shot_time\<close>.
\<close>

record weapon =
  weapon_name :: string
  damage :: int
  range_cells :: int
  ammo_capacity :: int
  ammo :: int
  fire_rate :: int
  last_shot_time :: real














subsection \<open>The laser pistol: the beam stops at the first enemy\<close>




subsection \<open>The rail gun: the beam goes through every enemy\<close>




subsection \<open>The grenade launcher: a 3 by 3 blast\<close>






text \<open>
  A cell the blast or a beam enters: inside the grid and not a wall.
\<close>

definition open_cell :: "game_map \<Rightarrow> int \<Rightarrow> int \<Rightarrow> bool" where
  "open_cell game_map cx cy \<longleftrightarrow>
     0 \<le> cx \<and> cx < width game_map \<and> 0 \<le> cy \<and> cy < height game_map \<and>
     grid_get (grid game_map) cx cy \<noteq> Some (CHR ''#'')"







text \<open>
  The enemy after the blast centred at \<open>(ix, iy)\<close> has visited the cells at the offsets
  \<open>offs\<close>: hit if it stands on one of them that the blast enters.
\<close>

definition blast_damage :: "game_map \<Rightarrow> int \<Rightarrow> int \<Rightarrow> int \<Rightarrow> (int \<times> int) list \<Rightarrow> enemy \<Rightarrow> enemy" where
  "blast_damage game_map dmg ix iy offs e =
     (if (xpos e - ix, ypos e - iy) \<in> set offs \<and> open_cell game_map (xpos e) (ypos e) then
        Enemy_take_damage e (if xpos e = ix \<and> ypos e = iy then dmg else dmg div 2) False
      else e)"

section \<open>Indexing lemmas\<close>

lemma grid_get_wf:
  assumes "wf_map m" "0 \<le> x" "x < width m" "0 \<le> y" "y < height m"
  shows "grid_get (grid m) x y = Some (grid m ! nat y ! nat x)"
proof -
  from assms have ylen: "nat y < length (grid m)"
    by (auto simp: wf_map_def nat_less_iff)
  then have "grid m ! nat y \<in> set (grid m)"
    by simp
  with assms have "int (length (grid m ! nat y)) = width m"
    by (simp add: wf_map_def list_all_iff)
  with assms ylen show ?thesis
    by (simp add: grid_get_def py_index_def wf_map_def)
qed

lemma grid_set_wf:
  assumes "wf_map m" "0 \<le> x" "x < width m" "0 \<le> y" "y < height m"
  shows "grid_set (grid m) x y c = Some ((grid m)[nat y := (grid m ! nat y)[nat x := c]])"
proof -
  from assms have ylen: "nat y < length (grid m)"
    by (auto simp: wf_map_def nat_less_iff)
  then have "grid m ! nat y \<in> set (grid m)"
    by simp
  with assms have "int (length (grid m ! nat y)) = width m"
    by (simp add: wf_map_def list_all_iff)
  with assms ylen show ?thesis
    by (simp add: grid_set_def py_index_def py_store_def wf_map_def)
qed

lemma wf_map_update:
  assumes "wf_map m"
  shows "wf_map (m\<lparr>grid := (grid m)[j := (grid m ! j)[i := c]]\<rparr>)"
proof -
  have "list_all (\<lambda>row. int (length row) = width m) ((grid m)[j := (grid m ! j)[i := c]])"
  proof (cases "j < length (grid m)")
    case True
    then have "grid m ! j \<in> set (grid m)" by simp
    with assms have "int (length ((grid m ! j)[i := c])) = width m"
      by (simp add: wf_map_def list_all_iff)
    with assms show ?thesis
      by (auto simp: wf_map_def list_all_iff dest!: set_update_subset_insert[THEN subsetD])
  next
    case False
    with assms show ?thesis by (simp add: wf_map_def list_update_beyond)
  qed
  with assms show ?thesis by (simp add: wf_map_def)
qed

lemma grid_update_other:
  assumes "(i', j') \<noteq> (i, j)"
  shows "g[j := (g ! j)[i := c]] ! j' ! i' = g ! j' ! i'"
proof (cases "j' = j")
  case True
  with assms have "i' \<noteq> i" by simp
  with True show ?thesis
    by (cases "j < length g") (simp_all add: list_update_beyond)
next
  case False
  then show ?thesis by simp
qed

lemma grid_update_same:
  assumes "j < length g" "i < length (g ! j)"
  shows "g[j := (g ! j)[i := c]] ! j ! i = c"
  using assms by simp

section \<open>Terrain queries outside the grid\<close>

text \<open>
  C9. For every (x, y) outside the grid bounds the three terrain queries return their
  safe defaults and do not raise: \<open>is_blocked\<close> answers true, \<open>get_terrain_damage\<close>
  answers 0 and \<open>get_terrain_effect\<close> answers 1.0. The three methods contain no
  assignment, which is why the model gives them no map to return: the grid a caller
  holds after the query is the one it passed. No assumption on the map is needed, the
  grid is not read on this path.
\<close>

theorem out_of_bounds_queries_safe_defaults:
  "\<not> (0 \<le> x \<and> x < width m \<and> 0 \<le> y \<and> y < height m) \<Longrightarrow>
     is_blocked m x y = Some True \<and>
     get_terrain_damage m x y = Some 0 \<and>
     get_terrain_effect m x y = Some 1"
  by (simp add: is_blocked_def get_terrain_damage_def get_terrain_effect_def)

theorem out_of_bounds_queries_safe_defaults_witness:
  "\<not> (0 \<le> (3::int) \<and> 3 < width demo_map \<and> 0 \<le> (1::int) \<and> 1 < height demo_map) \<and>
   is_blocked demo_map 3 1 = Some True \<and>
   get_terrain_damage demo_map 3 1 = Some 0 \<and>
   get_terrain_effect demo_map 3 1 = Some 1"
  using out_of_bounds_queries_safe_defaults [of 3 demo_map 1]
  by (simp add: demo_map_def)

section \<open>Consuming a pickup, destroying a tree\<close>

lemma collect_item_cases:
  assumes "wf_map m"
  shows "collect_item m x y =
     (if 0 \<le> x \<and> x < width m \<and> 0 \<le> y \<and> y < height m \<and>
         grid m ! nat y ! nat x \<in> {CHR ''H'', CHR ''A'', CHR ''P''}
      then Some (Some (grid m ! nat y ! nat x),
                 m\<lparr>grid := (grid m)[nat y := (grid m ! nat y)[nat x := CHR ''.'']]\<rparr>)
      else Some (None, m))"
  using assms by (auto simp: collect_item_def grid_get_wf grid_set_wf)

lemma destroy_terrain_cases:
  assumes "wf_map m"
  shows "destroy_terrain m x y =
     (if 0 \<le> x \<and> x < width m \<and> 0 \<le> y \<and> y < height m \<and> grid m ! nat y ! nat x = CHR ''T''
      then Some (Some (CHR ''T''),
                 m\<lparr>grid := (grid m)[nat y := (grid m ! nat y)[nat x := CHR ''.'']]\<rparr>)
      else Some (None, m))"
  using assms by (auto simp: destroy_terrain_def grid_get_wf grid_set_wf)

lemma cleared_cell_frame:
  assumes wf: "wf_map m"
    and xy: "0 \<le> x" "x < width m" "0 \<le> y" "y < height m"
    and m': "m' = m\<lparr>grid := (grid m)[nat y := (grid m ! nat y)[nat x := c]]\<rparr>"
  shows "wf_map m'" "width m' = width m" "height m' = height m"
    "grid_get (grid m') x y = Some c"
    "0 \<le> x' \<and> x' < width m \<and> 0 \<le> y' \<and> y' < height m \<and> (x', y') \<noteq> (x, y) \<longrightarrow>
       grid_get (grid m') x' y' = grid_get (grid m) x' y'"
proof -
  show wf': "wf_map m'" using wf m' by (simp add: wf_map_update)
  show w: "width m' = width m" and h: "height m' = height m" using m' by simp_all
  have ylen: "nat y < length (grid m)"
    using wf xy by (auto simp: wf_map_def nat_less_iff)
  then have "grid m ! nat y \<in> set (grid m)" by simp
  with wf have "int (length (grid m ! nat y)) = width m"
    by (simp add: wf_map_def list_all_iff)
  with xy have xlen: "nat x < length (grid m ! nat y)"
    by (auto simp: nat_less_iff)
  have "grid_get (grid m') x y = Some (grid m' ! nat y ! nat x)"
    using wf' xy w h by (simp add: grid_get_wf)
  then show "grid_get (grid m') x y = Some c"
    using m' ylen xlen by simp
  show "0 \<le> x' \<and> x' < width m \<and> 0 \<le> y' \<and> y' < height m \<and> (x', y') \<noteq> (x, y) \<longrightarrow>
       grid_get (grid m') x' y' = grid_get (grid m) x' y'"
  proof
    assume a: "0 \<le> x' \<and> x' < width m \<and> 0 \<le> y' \<and> y' < height m \<and> (x', y') \<noteq> (x, y)"
    with xy have ne: "(nat x', nat y') \<noteq> (nat x, nat y)" by auto
    have "grid_get (grid m') x' y' = Some (grid m' ! nat y' ! nat x')"
      using wf' a w h by (simp add: grid_get_wf)
    also have "grid m' ! nat y' ! nat x' = grid m ! nat y' ! nat x'"
      using m' grid_update_other [OF ne] by simp
    also have "Some (grid m ! nat y' ! nat x') = grid_get (grid m) x' y'"
      using wf a by (simp add: grid_get_wf)
    finally show "grid_get (grid m') x' y' = grid_get (grid m) x' y'" .
  qed
qed

lemma collect_item_spec:
  assumes wf: "wf_map m"
  shows "\<exists>r m'. collect_item m x y = Some (r, m') \<and>
      wf_map m' \<and> width m' = width m \<and> height m' = height m \<and>
      (\<forall>x' y'. 0 \<le> x' \<and> x' < width m \<and> 0 \<le> y' \<and> y' < height m \<and> (x', y') \<noteq> (x, y) \<longrightarrow>
         grid_get (grid m') x' y' = grid_get (grid m) x' y') \<and>
      (r \<noteq> None \<longrightarrow> grid_get (grid m) x y = r \<and> grid_get (grid m') x y = Some (CHR ''.'') \<and>
         collect_item m' x y = Some (None, m')) \<and>
      (r = None \<longrightarrow> m' = m) \<and>
      (r = None \<longleftrightarrow>
         \<not> (0 \<le> x \<and> x < width m \<and> 0 \<le> y \<and> y < height m \<and>
            grid_get (grid m) x y \<in> {Some (CHR ''H''), Some (CHR ''A''), Some (CHR ''P'')}))"
proof (cases "0 \<le> x \<and> x < width m \<and> 0 \<le> y \<and> y < height m \<and>
         grid m ! nat y ! nat x \<in> {CHR ''H'', CHR ''A'', CHR ''P''}")
  case True
  define m' where "m' = m\<lparr>grid := (grid m)[nat y := (grid m ! nat y)[nat x := CHR ''.'']]\<rparr>"
  from True have xy: "0 \<le> x" "x < width m" "0 \<le> y" "y < height m" by simp_all
  note fr = cleared_cell_frame [OF wf xy m'_def]
  have c: "collect_item m x y = Some (Some (grid m ! nat y ! nat x), m')"
    using True wf by (simp add: collect_item_cases m'_def)
  have g: "grid_get (grid m) x y = Some (grid m ! nat y ! nat x)"
    using wf xy by (simp add: grid_get_wf)
  have "grid m' ! nat y ! nat x = CHR ''.''"
    using fr(4) fr(1) xy fr(2) fr(3) by (simp add: grid_get_wf)
  then have again: "collect_item m' x y = Some (None, m')"
    using fr(1) by (simp add: collect_item_cases)
  show ?thesis
    using c g again fr True by (intro exI [of _ "Some (grid m ! nat y ! nat x)"] exI [of _ m']) auto
next
  case False
  then have c: "collect_item m x y = Some (None, m)"
    using wf by (simp add: collect_item_cases)
  have "\<not> (0 \<le> x \<and> x < width m \<and> 0 \<le> y \<and> y < height m \<and>
            grid_get (grid m) x y \<in> {Some (CHR ''H''), Some (CHR ''A''), Some (CHR ''P'')})"
    using False wf by (auto simp: grid_get_wf)
  with c wf show ?thesis
    by (intro exI [of _ None] exI [of _ m]) simp
qed

lemma destroy_terrain_spec:
  assumes wf: "wf_map m"
  shows "\<exists>r m'. destroy_terrain m x y = Some (r, m') \<and>
      wf_map m' \<and> width m' = width m \<and> height m' = height m \<and>
      (\<forall>x' y'. 0 \<le> x' \<and> x' < width m \<and> 0 \<le> y' \<and> y' < height m \<and> (x', y') \<noteq> (x, y) \<longrightarrow>
         grid_get (grid m') x' y' = grid_get (grid m) x' y') \<and>
      (r \<noteq> None \<longrightarrow> grid_get (grid m) x y = r \<and> grid_get (grid m') x y = Some (CHR ''.'') \<and>
         destroy_terrain m' x y = Some (None, m')) \<and>
      (r = None \<longrightarrow> m' = m) \<and>
      (r = None \<longleftrightarrow>
         \<not> (0 \<le> x \<and> x < width m \<and> 0 \<le> y \<and> y < height m \<and>
            grid_get (grid m) x y = Some (CHR ''T'')))"
proof (cases "0 \<le> x \<and> x < width m \<and> 0 \<le> y \<and> y < height m \<and> grid m ! nat y ! nat x = CHR ''T''")
  case True
  define m' where "m' = m\<lparr>grid := (grid m)[nat y := (grid m ! nat y)[nat x := CHR ''.'']]\<rparr>"
  from True have xy: "0 \<le> x" "x < width m" "0 \<le> y" "y < height m" by simp_all
  note fr = cleared_cell_frame [OF wf xy m'_def]
  have c: "destroy_terrain m x y = Some (Some (CHR ''T''), m')"
    using True wf by (simp add: destroy_terrain_cases m'_def)
  have g: "grid_get (grid m) x y = Some (CHR ''T'')"
    using wf xy True by (simp add: grid_get_wf)
  have "grid m' ! nat y ! nat x = CHR ''.''"
    using fr(4) fr(1) xy fr(2) fr(3) by (simp add: grid_get_wf)
  then have again: "destroy_terrain m' x y = Some (None, m')"
    using fr(1) by (simp add: destroy_terrain_cases)
  show ?thesis
    using c g again fr True by (intro exI [of _ "Some (CHR ''T'')"] exI [of _ m']) auto
next
  case False
  then have c: "destroy_terrain m x y = Some (None, m)"
    using wf by (simp add: destroy_terrain_cases)
  have "\<not> (0 \<le> x \<and> x < width m \<and> 0 \<le> y \<and> y < height m \<and>
            grid_get (grid m) x y = Some (CHR ''T''))"
    using False wf by (auto simp: grid_get_wf)
  with c wf show ?thesis
    by (intro exI [of _ None] exI [of _ m]) simp
qed

text \<open>
  C10. On a map of \<open>height\<close> rows of \<open>width\<close> cells, \<open>collect_item\<close> and
  \<open>destroy_terrain\<close> return (they do not raise) and change at most the addressed cell:
  the dimensions and every other cell inside the grid read as before. When the call
  took something (a pickup H, A or P, or a tree T), the cell held it before and holds
  floor after, and an immediately repeated call on the same cell returns \<^verbatim>\<open>None\<close> and
  leaves the map as it is. A call returns \<^verbatim>\<open>None\<close> exactly when the cell is outside
  the grid or is not a pickup (not a tree), and then the map is unchanged.
\<close>

theorem collect_destroy_single_cell_idempotent:
  "wf_map m \<Longrightarrow>
    (\<exists>r m'. collect_item m x y = Some (r, m') \<and>
      wf_map m' \<and> width m' = width m \<and> height m' = height m \<and>
      (\<forall>x' y'. 0 \<le> x' \<and> x' < width m \<and> 0 \<le> y' \<and> y' < height m \<and> (x', y') \<noteq> (x, y) \<longrightarrow>
         grid_get (grid m') x' y' = grid_get (grid m) x' y') \<and>
      (r \<noteq> None \<longrightarrow> grid_get (grid m) x y = r \<and> grid_get (grid m') x y = Some (CHR ''.'') \<and>
         collect_item m' x y = Some (None, m')) \<and>
      (r = None \<longrightarrow> m' = m) \<and>
      (r = None \<longleftrightarrow>
         \<not> (0 \<le> x \<and> x < width m \<and> 0 \<le> y \<and> y < height m \<and>
            grid_get (grid m) x y \<in> {Some (CHR ''H''), Some (CHR ''A''), Some (CHR ''P'')}))) \<and>
    (\<exists>r m'. destroy_terrain m x y = Some (r, m') \<and>
      wf_map m' \<and> width m' = width m \<and> height m' = height m \<and>
      (\<forall>x' y'. 0 \<le> x' \<and> x' < width m \<and> 0 \<le> y' \<and> y' < height m \<and> (x', y') \<noteq> (x, y) \<longrightarrow>
         grid_get (grid m') x' y' = grid_get (grid m) x' y') \<and>
      (r \<noteq> None \<longrightarrow> grid_get (grid m) x y = r \<and> grid_get (grid m') x y = Some (CHR ''.'') \<and>
         destroy_terrain m' x y = Some (None, m')) \<and>
      (r = None \<longrightarrow> m' = m) \<and>
      (r = None \<longleftrightarrow>
         \<not> (0 \<le> x \<and> x < width m \<and> 0 \<le> y \<and> y < height m \<and>
            grid_get (grid m) x y = Some (CHR ''T''))))"
  using collect_item_spec [of m x y] destroy_terrain_spec [of m x y] by blast

text \<open>
  The theorem at the demo map: the pickup at (1, 1) is collected once, and the tree at
  (2, 1) is destroyed once.
\<close>

theorem collect_destroy_single_cell_idempotent_witness:
  "wf_map demo_map \<and>
   collect_item demo_map 1 1 =
     Some (Some (CHR ''H''), demo_map\<lparr>grid := [''###'', ''#.T'', ''#.#'']\<rparr>) \<and>
   collect_item (demo_map\<lparr>grid := [''###'', ''#.T'', ''#.#'']\<rparr>) 1 1 =
     Some (None, demo_map\<lparr>grid := [''###'', ''#.T'', ''#.#'']\<rparr>) \<and>
   destroy_terrain demo_map 2 1 =
     Some (Some (CHR ''T''), demo_map\<lparr>grid := [''###'', ''#H.'', ''#.#'']\<rparr>) \<and>
   destroy_terrain (demo_map\<lparr>grid := [''###'', ''#H.'', ''#.#'']\<rparr>) 2 1 =
     Some (None, demo_map\<lparr>grid := [''###'', ''#H.'', ''#.#'']\<rparr>)"
proof -
  have wf: "wf_map demo_map"
    by (simp add: wf_map_def demo_map_def)
  have c: "collect_item demo_map 1 1 =
     Some (Some (CHR ''H''), demo_map\<lparr>grid := [''###'', ''#.T'', ''#.#'']\<rparr>)"
    by (simp add: collect_item_def grid_get_def grid_set_def py_index_def py_store_def demo_map_def)
  have d: "destroy_terrain demo_map 2 1 =
     Some (Some (CHR ''T''), demo_map\<lparr>grid := [''###'', ''#H.'', ''#.#'']\<rparr>)"
    by (simp add: destroy_terrain_def grid_get_def grid_set_def py_index_def py_store_def demo_map_def)
  from collect_destroy_single_cell_idempotent [OF wf, of 1 1] c
  have c2: "collect_item (demo_map\<lparr>grid := [''###'', ''#.T'', ''#.#'']\<rparr>) 1 1 =
     Some (None, demo_map\<lparr>grid := [''###'', ''#.T'', ''#.#'']\<rparr>)"
    by auto
  from collect_destroy_single_cell_idempotent [OF wf, of 2 1] d
  have d2: "destroy_terrain (demo_map\<lparr>grid := [''###'', ''#H.'', ''#.#'']\<rparr>) 2 1 =
     Some (None, demo_map\<lparr>grid := [''###'', ''#H.'', ''#.#'']\<rparr>)"
    by auto
  from wf c c2 d d2 show ?thesis by simp
qed

section \<open>The rounded product 0.7 * damage\<close>

lemma bit_length_bounds:
  "0 < n \<Longrightarrow> 2 ^ (bit_length n - 1) \<le> n \<and> n < 2 ^ bit_length n"
proof (induction n rule: bit_length.induct)
  case (1 n)
  then have pos: "0 < n" by simp
  have bl: "bit_length n = Suc (bit_length (n div 2))"
    using pos by (subst bit_length.simps) simp
  show ?case
  proof (cases "n div 2 = 0")
    case True
    then have "n = 1" using pos by linarith
    moreover have "bit_length (0::int) = 0" by (subst bit_length.simps) simp
    ultimately show ?thesis using bl True by simp
  next
    case False
    then have half: "0 < n div 2" using pos by linarith
    with 1 pos have ih: "2 ^ (bit_length (n div 2) - 1) \<le> n div 2"
      "n div 2 < 2 ^ bit_length (n div 2)" by simp_all
    have lpos: "0 < bit_length (n div 2)"
      using half by (subst bit_length.simps) simp
    then have "(2::int) ^ bit_length (n div 2) = 2 * 2 ^ (bit_length (n div 2) - 1)"
      by (cases "bit_length (n div 2)") simp_all
    with ih have "2 ^ bit_length (n div 2) \<le> 2 * (n div 2)" by simp
    also have "\<dots> \<le> n" by linarith
    finally have lo: "2 ^ bit_length (n div 2) \<le> n" .
    have "n < 2 * (n div 2) + 2" by linarith
    also have "\<dots> \<le> 2 * 2 ^ bit_length (n div 2)" using ih by linarith
    finally have hi: "n < 2 * 2 ^ bit_length (n div 2)" .
    show ?thesis using lo hi bl by simp
  qed
qed

lemma bit_length_le:
  assumes "n < 2 ^ k"
  shows "bit_length n \<le> k"
proof (cases "0 < n")
  case True
  from bit_length_bounds [OF True] assms have "(2::int) ^ (bit_length n - 1) < 2 ^ k" by linarith
  then have "bit_length n - 1 < k" by (simp add: power_strict_increasing_iff)
  then show ?thesis by linarith
next
  case False
  then have "bit_length n = 0" by (subst bit_length.simps) simp
  then show ?thesis by simp
qed

lemma rne_div_error:
  assumes "0 < d"
  shows "2 * \<bar>rne_div n d * d - n\<bar> \<le> d"
proof -
  define q where "q = n div d"
  define r where "r = n mod d"
  have n: "n = q * d + r" by (simp add: q_def r_def)
  have r: "0 \<le> r" "r < d" using assms by (simp_all add: r_def)
  have "rne_div n d = q \<and> 2 * r \<le> d \<or> rne_div n d = q + 1 \<and> d \<le> 2 * r"
    by (auto simp: rne_div_def Let_def q_def r_def)
  then show ?thesis
  proof
    assume "rne_div n d = q \<and> 2 * r \<le> d"
    then show ?thesis using n r by (simp add: algebra_simps)
  next
    assume a: "rne_div n d = q + 1 \<and> d \<le> 2 * r"
    then have "rne_div n d * d - n = d - r" using n by (simp add: algebra_simps)
    then show ?thesis using a r by simp
  qed
qed

lemma div_between:
  fixes m c q :: int
  assumes "0 < c" "q * c \<le> m" "m < (q + 1) * c"
  shows "m div c = q"
proof (rule int_div_pos_eq)
  show "m = c * q + (m - q * c)" by simp
  show "0 \<le> m - q * c" using assms by simp
  show "m - q * c < c" using assms by (simp add: algebra_simps)
qed

text \<open>
  The numerator of the rounded product over \<open>2^53\<close>: the product of a damage below
  \<open>2^49\<close> and the double 0.7 is, after rounding, \<open>X / 2^53\<close> for an integer \<open>X\<close> that is
  at most \<open>D\<close> away from the exact numerator, and \<^verbatim>\<open>int\<close> of it is \<open>X div 2^53\<close>.
\<close>

lemma int_times_0_7_numerator:
  assumes D: "0 \<le> D" "D < 2 ^ 49"
  shows "\<exists>X. int_times_0_7 D = X div 2 ^ 53 \<and> \<bar>X - D * 6305039478318694\<bar> \<le> D"
proof -
  define N where "N = D * 6305039478318694"
  have N0: "0 \<le> N" using D by (simp add: N_def)
  have "D < 2 ^ 53" using D by simp
  then have "bit_length D \<le> 53" by (rule bit_length_le)
  then have r1: "round_to_double \<bar>D\<bar> 0 = (D, 0)"
    using D by (simp add: round_to_double_def)
  define l where "l = bit_length N"
  show ?thesis
  proof (cases "l \<le> 53")
    case True
    then have "round_to_double N (- 53) = (N, - 53)"
      by (simp add: round_to_double_def l_def)
    with r1 D have "int_times_0_7 D = N div 2 ^ 53"
      by (simp add: int_times_0_7_def N_def)
    then show ?thesis using D by (intro exI [of _ N]) (simp add: N_def)
  next
    case False
    define s where "s = l - 53"
    have s1: "1 \<le> s" using False by (simp add: s_def)
    have ls: "l = s + 53" using False by (simp add: s_def)
    have Npos: "0 < N"
    proof (rule ccontr)
      assume "\<not> 0 < N"
      then have "bit_length N = 0" by (subst bit_length.simps) simp
      with False show False by (simp add: l_def)
    qed
    have "N < 2 ^ 49 * 2 ^ 53"
    proof -
      have "N < D * 2 ^ 53 \<or> D = 0" using D by (auto simp: N_def)
      moreover have "D * 2 ^ 53 \<le> 2 ^ 49 * (2 ^ 53 :: int)" using D by simp
      ultimately show ?thesis using Npos by (auto simp: N_def)
    qed
    then have "N < 2 ^ 102" by simp
    then have "l \<le> 102" unfolding l_def by (rule bit_length_le)
    then have s49: "s \<le> 49" by (simp add: s_def)
    define m where "m = rne_div N (2 ^ s)"
    define X where "X = m * 2 ^ s"
    have rd: "round_to_double N (- 53) = (m, int s - 53)"
      using False by (simp add: round_to_double_def l_def [symmetric] s_def m_def)
    have eneg: "\<not> (0 \<le> int s - 53)" using s49 by simp
    have t: "int_times_0_7 D = m div 2 ^ (53 - s)"
    proof -
      have "nat (53 - int s) = 53 - s" by simp
      with r1 rd eneg D show ?thesis
        by (simp add: int_times_0_7_def N_def [symmetric])
    qed
    have p53: "(2::int) ^ 53 = 2 ^ (53 - s) * 2 ^ s"
      using s49 by (simp add: power_add [symmetric])
    have "X div 2 ^ 53 = m div 2 ^ (53 - s)"
      unfolding X_def p53 by simp
    with t have tX: "int_times_0_7 D = X div 2 ^ 53" by simp
    have err: "2 * \<bar>X - N\<bar> \<le> 2 ^ s"
      unfolding X_def m_def by (rule rne_div_error) simp
    from bit_length_bounds [OF Npos] have "2 ^ (l - 1) \<le> N" by (simp add: l_def)
    moreover have "(2::int) ^ l = 2 * 2 ^ (l - 1)"
      by (simp add: ls power_add)
    ultimately have "(2::int) ^ l \<le> 2 * N" by simp
    then have "(2::int) ^ s * 2 ^ 53 \<le> 2 * N" by (simp add: ls power_add)
    moreover have "2 * \<bar>X - N\<bar> * 2 ^ 53 \<le> 2 ^ s * (2 ^ 53 :: int)"
      using err by (rule mult_right_mono) simp
    ultimately have "\<bar>X - N\<bar> * 2 ^ 53 \<le> N" by linarith
    moreover have "N \<le> D * 2 ^ 53" using D by (simp add: N_def)
    ultimately have "\<bar>X - N\<bar> * 2 ^ 53 \<le> D * 2 ^ 53" by linarith
    then have "\<bar>X - N\<bar> \<le> D" by simp
    with tX show ?thesis by (intro exI [of _ X]) (simp add: N_def)
  qed
qed

lemma int_times_0_7_bounds:
  assumes D: "0 \<le> D" "D < 2 ^ 49"
  shows "7 * D div 10 - 1 \<le> int_times_0_7 D"
    and "int_times_0_7 D \<le> 7 * D div 10"
    and "D mod 10 \<noteq> 0 \<Longrightarrow> int_times_0_7 D = 7 * D div 10"
proof -
  from int_times_0_7_numerator [OF D] obtain X where
    t: "int_times_0_7 D = X div 9007199254740992"
    and X: "\<bar>X - D * 6305039478318694\<bar> \<le> D" by auto
  define q where "q = 7 * D div 10"
  define r where "r = 7 * D mod 10"
  have qr: "7 * D = 10 * q + r" "0 \<le> r" "r < 10" by (simp_all add: q_def r_def)
  have D': "D < 562949953421312" using D by simp
  have up: "X < (q + 1) * 9007199254740992"
    using X qr D D' by (simp add: algebra_simps; linarith)
  have lo1: "(q - 1) * 9007199254740992 \<le> X"
    using X qr D D' by (simp add: algebra_simps; linarith)
  have "q - 1 \<le> X div 9007199254740992"
    using lo1 by (simp add: zdiv_mono1 [of "(q - 1) * 9007199254740992" X 9007199254740992, simplified])
  then show "7 * D div 10 - 1 \<le> int_times_0_7 D" by (simp add: t q_def)
  have "X div 9007199254740992 < q + 1"
    using up by (simp add: div_less_iff_less_mult)
  then show "int_times_0_7 D \<le> 7 * D div 10" by (simp add: t q_def)
  show "int_times_0_7 D = 7 * D div 10" if "D mod 10 \<noteq> 0"
  proof -
    have "r \<noteq> 0"
    proof
      assume "r = 0"
      then have "10 dvd 7 * D" by (simp add: r_def dvd_eq_mod_eq_0)
      then have "10 dvd D" by presburger
      with that show False by (simp add: dvd_eq_mod_eq_0)
    qed
    with qr have "1 \<le> r" by simp
    then have lo: "q * 9007199254740992 \<le> X"
      using X qr D D' by (simp add: algebra_simps; linarith)
    from div_between [OF _ lo up] show ?thesis by (simp add: t q_def)
  qed
qed

text \<open>
  Values of the product: the damages the game itself deals (8, 10, 12, 15, 20, 25, 35,
  40, 45) are reduced to the floor of seven tenths; 90 is not, the product rounds to
  just under 63.
\<close>

lemma int_times_0_7_values:
  "int_times_0_7 0 = 0" "int_times_0_7 10 = 7" "int_times_0_7 20 = 14"
  "int_times_0_7 40 = 28" "int_times_0_7 100 = 70" "int_times_0_7 90 = 62"
  by code_simp+

section \<open>Health under damage\<close>

lemma demo_enemy_constructed:
  "map_option fst (Enemy_init 1 1 50 demo_rng) = Some demo_enemy"
  by (simp add: Enemy_init_def random_choice_def demo_rng_def demo_enemy_def)

lemma protected_player_state:
  "protected protected_player" "health protected_player = 5" "max_health protected_player = 100"
  by (simp_all add: protected_player_def Player_take_damage_def Player_apply_status_effect_def
      apply_status_effect_def apply_effect_def ProtectionEffect_init_def StatusEffect_init_def
      demo_player_def Player_init_def Let_def)

lemma protected_enemy_state:
  "protected protected_enemy" "health protected_enemy = 50"
  by (simp_all add: protected_enemy_def Enemy_apply_status_effect_def
      apply_status_effect_def apply_effect_def ProtectionEffect_init_def StatusEffect_init_def
      demo_enemy_def Let_def)

lemma rne_div_nonneg:
  assumes "0 \<le> n" "0 < d"
  shows "0 \<le> rne_div n d"
proof -
  have "0 \<le> n div d" using assms by (simp add: pos_imp_zdiv_nonneg_iff)
  then show ?thesis by (simp add: rne_div_def Let_def)
qed

lemma round_to_double_nonneg:
  "0 \<le> n \<Longrightarrow> 0 \<le> fst (round_to_double n e)"
  by (simp add: round_to_double_def Let_def rne_div_nonneg)

lemma int_times_0_7_nonneg:
  assumes "0 \<le> d"
  shows "0 \<le> int_times_0_7 d"
proof -
  obtain m1 e1 where a: "round_to_double \<bar>d\<bar> 0 = (m1, e1)" by (cases "round_to_double \<bar>d\<bar> 0")
  obtain m e where b: "round_to_double (m1 * 6305039478318694) (e1 - 53) = (m, e)"
    by (cases "round_to_double (m1 * 6305039478318694) (e1 - 53)")
  have "0 \<le> m1" using round_to_double_nonneg [of "\<bar>d\<bar>" 0] a by simp
  then have "0 \<le> m" using round_to_double_nonneg [of "m1 * 6305039478318694" "e1 - 53"] b by simp
  then have "0 \<le> (if 0 \<le> e then m * 2 ^ nat e else m div 2 ^ nat (- e))"
    by (simp add: pos_imp_zdiv_nonneg_iff)
  with a b assms show ?thesis by (simp add: int_times_0_7_def)
qed

text \<open>
  The player's health stays between 0 and \<open>max_health\<close> under any non-negative damage:
  the subtraction is followed by the clamp at 0.
\<close>

lemma Player_take_damage_in_range:
  assumes "0 \<le> dmg" "0 \<le> health p" "health p \<le> max_health p"
  shows "0 \<le> health (Player_take_damage p dmg ign)"
    and "health (Player_take_damage p dmg ign) \<le> max_health (Player_take_damage p dmg ign)"
proof -
  have "0 \<le> int_times_0_7 dmg" using assms(1) by (rule int_times_0_7_nonneg)
  with assms show "0 \<le> health (Player_take_damage p dmg ign)"
    and "health (Player_take_damage p dmg ign) \<le> max_health (Player_take_damage p dmg ign)"
    by (auto simp: Player_take_damage_def Let_def)
qed

text \<open>
  C2. The claim holds for the player and fails for the enemy: \<open>Enemy.take_damage\<close> ends
  after the subtraction, without the clamp its sibling \<open>Player.take_damage\<close> has. The
  test enemy \<^verbatim>\<open>Enemy(1, 1, health=50)\<close> hit by 60 points of damage is left with a
  health of -10, whatever the generator drew for its strategy.
\<close>

theorem Enemy_take_damage_leaves_negative_health:
  "map_option (\<lambda>(e, r'). health (Enemy_take_damage e 60 False)) (Enemy_init 1 1 50 r) = Some (- 10)"
  by (simp add: Enemy_init_def random_choice_def Enemy_take_damage_def)

section \<open>Protection\<close>

text \<open>
  Where the rounded product is the floor of seven tenths: every damage below \<open>2^49\<close>
  that is not a multiple of 10, and the multiples of 10 the game's weapons and attacks
  deal.
\<close>

lemma protected_damage_amount:
  assumes "0 \<le> D" "D < 2 ^ 49" "D mod 10 \<noteq> 0 \<or> D \<in> {0, 10, 20, 40}"
  shows "int_times_0_7 D = 7 * D div 10"
proof (cases "D mod 10 \<noteq> 0")
  case True
  with assms show ?thesis by (simp add: int_times_0_7_bounds(3))
next
  case False
  with assms have "D = 0 \<or> D = 10 \<or> D = 20 \<or> D = 40" by auto
  then show ?thesis by (auto simp: int_times_0_7_values)
qed

text \<open>
  What a protected entity loses does not depend on its list of status effects, so not
  on the intensity stored there: it is the rounded product, and the player's health
  stops at 0.
\<close>

lemma protected_damage_applied:
  assumes "protected (e :: enemy)" "protected (p :: player)"
  shows "health (Enemy_take_damage (e\<lparr>status_effects := fx\<rparr>) D False) = health e - int_times_0_7 D"
    and "health (Player_take_damage (p\<lparr>status_effects := fx\<rparr>) D False) =
           max 0 (health p - int_times_0_7 D)"
  using assms by (simp_all add: Enemy_take_damage_def Player_take_damage_def Let_def)

text \<open>
  C5. The amount is \<^verbatim>\<open>int(damage * 0.7)\<close> in double arithmetic, and at a damage of 90
  the product is just below 63 and is cut to 62. The enemy \<^verbatim>\<open>Enemy(1, 1, health=100)\<close>,
  whatever the generator drew for its strategy, after
  \<^verbatim>\<open>apply_status_effect(ProtectionEffect(duration=2, intensity=1.0))\<close> is protected with
  100 health, and \<^verbatim>\<open>take_damage(90)\<close> leaves it with 38; the floor of \<open>90 * 0.7\<close> is 63,
  which would leave 37.
\<close>

theorem protected_damage_truncated_below_floor:
  "map_option
     (\<lambda>(e, r'). let p = fst (Enemy_apply_status_effect e (ProtectionEffect_init 2 1) r')
                in (protected p, health p, health (Enemy_take_damage p 90 False)))
     (Enemy_init 1 1 100 r) = Some (True, 100, 38) \<and>
   100 - 7 * 90 div 10 = (37::int)"
  by (simp add: Enemy_init_def random_choice_def Enemy_apply_status_effect_def
      apply_status_effect_def apply_effect_def ProtectionEffect_init_def StatusEffect_init_def
      Enemy_take_damage_def Let_def int_times_0_7_values)
section \<open>Stacking status effects\<close>

lemma find_effect_None_iff:
  "find_effect n fx = None \<longleftrightarrow> (\<forall>e \<in> set fx. name e \<noteq> n)"
  by (induction fx) auto

lemma find_effect_Some:
  "find_effect n fx = Some k \<Longrightarrow> k < length fx \<and> name (fx ! k) = n"
proof (induction fx arbitrary: k)
  case Nil
  then show ?case by simp
next
  case (Cons e es)
  then show ?case by (cases "name e = n") auto
qed

lemma filter_count_update:
  assumes "k < length xs" "P y = P (xs ! k)"
  shows "length (filter P (xs[k := y])) = length (filter P xs)"
  using assms
proof (induction xs arbitrary: k)
  case Nil
  then show ?case by simp
next
  case (Cons x xs)
  then show ?case by (cases k) auto
qed

lemma apply_effect_status_effects:
  "status_effects (apply_effect eff nm ent) = status_effects ent"
  by (cases "cls eff") (simp_all add: apply_effect_def)

lemma stack_effect_intensity_class:
  assumes "name self \<in> set [''Poison'', ''Regeneration'', ''Strength'', ''Weakness'', ''Protection'']"
  shows "name (fst (stack_effect self ex r)) = name ex"
    and "max_intensity (fst (stack_effect self ex r)) = max_intensity ex"
    and "intensity (fst (stack_effect self ex r)) \<le> max_intensity ex"
    and "duration (fst (stack_effect self ex r)) = max (duration ex) (base_duration self)"
  using assms by (auto simp: stack_effect_def Let_def split: prod.splits)

lemma apply_status_effect_first:
  assumes n: "n \<in> set [''Poison'', ''Regeneration'', ''Strength'', ''Weakness'', ''Protection'']"
    and di: "0 \<le> d" "0 \<le> i"
    and none: "find_effect n (status_effects ent) = None"
  shows "stacked_once n d i
           (status_effects (fst (apply_status_effect nm ent (StatusEffect_init c n d i) r)))"
proof -
  have fx: "status_effects (fst (apply_status_effect nm ent (StatusEffect_init c n d i) r)) =
      status_effects ent @ [StatusEffect_init c n d i]"
    using none
    by (simp add: apply_status_effect_def StatusEffect_init_def Let_def apply_effect_status_effects)
  have "filter (\<lambda>e. name e = n) (status_effects ent) = []"
    using none by (simp add: find_effect_None_iff filter_empty_conv)
  then show ?thesis
    using none di unfolding fx
    by (auto simp: stacked_once_def StatusEffect_init_def list_all_iff find_effect_None_iff)
qed

lemma apply_status_effect_again:
  assumes n: "n \<in> set [''Poison'', ''Regeneration'', ''Strength'', ''Weakness'', ''Protection'']"
    and inv: "stacked_once n d i (status_effects ent)"
  shows "stacked_once n d i
           (status_effects (fst (apply_status_effect nm ent (StatusEffect_init c n d i) r)))"
proof -
  let ?eff = "StatusEffect_init c n d i"
  have nm: "name ?eff = n" "base_duration ?eff = d" by (simp_all add: StatusEffect_init_def)
  have cls: "name ?eff \<in> set [''Poison'', ''Regeneration'', ''Strength'', ''Weakness'', ''Protection'']"
    using n nm by simp
  from inv have "filter (\<lambda>e. name e = n) (status_effects ent) \<noteq> []"
    by (auto simp: stacked_once_def)
  then have "find_effect n (status_effects ent) \<noteq> None"
    by (simp add: find_effect_None_iff filter_empty_conv)
  then obtain k where k: "find_effect n (status_effects ent) = Some k" by auto
  from find_effect_Some [OF k] have kl: "k < length (status_effects ent)"
    and kn: "name (status_effects ent ! k) = n" by simp_all
  define ex where "ex = status_effects ent ! k"
  define e' where "e' = fst (stack_effect ?eff ex r)"
  have exin: "ex \<in> set (status_effects ent)" using kl by (simp add: ex_def)
  with inv kn have exinv: "max_intensity ex = i * 3" "duration ex \<le> d"
    by (auto simp: stacked_once_def list_all_iff ex_def)
  have e': "name e' = n" "max_intensity e' = i * 3" "intensity e' \<le> i * 3" "duration e' \<le> d"
    using stack_effect_intensity_class [OF cls, of ex r] exinv kn nm
    by (simp_all add: e'_def ex_def)
  have fx: "status_effects (fst (apply_status_effect nm ent ?eff r)) = (status_effects ent)[k := e']"
    using k nm by (simp add: apply_status_effect_def e'_def ex_def split: prod.splits)
  have cnt: "length (filter (\<lambda>e. name e = n) ((status_effects ent)[k := e'])) =
      length (filter (\<lambda>e. name e = n) (status_effects ent))"
    using kl kn e' by (intro filter_count_update) simp_all
  have "\<forall>e \<in> set ((status_effects ent)[k := e']).
      name e = n \<longrightarrow> max_intensity e = i * 3 \<and> intensity e \<le> i * 3 \<and> duration e \<le> d"
  proof
    fix e assume "e \<in> set ((status_effects ent)[k := e'])"
    then have "e = e' \<or> e \<in> set (status_effects ent)"
      using set_update_subset_insert [of "status_effects ent" k e'] by auto
    then show "name e = n \<longrightarrow> max_intensity e = i * 3 \<and> intensity e \<le> i * 3 \<and> duration e \<le> d"
      using e' inv by (auto simp: stacked_once_def list_all_iff)
  qed
  with cnt inv show ?thesis unfolding fx by (simp add: stacked_once_def list_all_iff)
qed

lemma apply_copies_stacked:
  assumes n: "n \<in> set [''Poison'', ''Regeneration'', ''Strength'', ''Weakness'', ''Protection'']"
  shows "stacked_once n d i (status_effects ent) \<Longrightarrow>
    stacked_once n d i (status_effects (fst (apply_copies N nm ent (StatusEffect_init c n d i) r)))"
proof (induction N arbitrary: ent r)
  case 0
  then show ?case by simp
next
  case (Suc N)
  obtain ent' r' where s: "apply_status_effect nm ent (StatusEffect_init c n d i) r = (ent', r')"
    by (cases "apply_status_effect nm ent (StatusEffect_init c n d i) r")
  have "stacked_once n d i (status_effects ent')"
    using apply_status_effect_again [OF n Suc.prems, of nm c r] s by simp
  from Suc.IH [OF this] s show ?case by simp
qed

text \<open>
  C4. Take an entity (a player or an enemy: the record is the part the two share) that
  carries no effect named \<open>n\<close>, where \<open>n\<close> is one of Poison, Regeneration, Strength,
  Weakness and Protection, and apply \<open>N \<ge> 1\<close> copies of an effect of that name built
  with a duration \<open>d \<ge> 0\<close> and an intensity \<open>i \<ge> 0\<close>, whatever the generator draws.
  Afterwards the entity lists exactly one effect named \<open>n\<close>, and that effect's intensity
  is at most \<open>3 * i\<close> and its duration at most \<open>2 * d\<close>.
  \<open>Player.apply_status_effect\<close> and \<open>Enemy.apply_status_effect\<close> are
  \<open>apply_status_effect\<close> at the display names of the two classes.
\<close>

theorem intensity_stacking_capped:
  "n \<in> set [''Poison'', ''Regeneration'', ''Strength'', ''Weakness'', ''Protection''] \<Longrightarrow>
   0 \<le> d \<Longrightarrow> 0 \<le> i \<Longrightarrow> find_effect n (status_effects ent) = None \<Longrightarrow> 1 \<le> N \<Longrightarrow>
     length (filter (\<lambda>e. name e = n)
       (status_effects (fst (apply_copies N nm ent (StatusEffect_init c n d i) r)))) = 1 \<and>
     (\<forall>e \<in> set (status_effects (fst (apply_copies N nm ent (StatusEffect_init c n d i) r))).
        name e = n \<longrightarrow> intensity e \<le> 3 * i \<and> duration e \<le> 2 * d)"
proof -
  assume n: "n \<in> set [''Poison'', ''Regeneration'', ''Strength'', ''Weakness'', ''Protection'']"
    and di: "0 \<le> d" "0 \<le> i"
    and none: "find_effect n (status_effects ent) = None"
    and N: "1 \<le> N"
  from N obtain M where M: "N = Suc M" by (cases N) simp_all
  obtain ent' r' where s: "apply_status_effect nm ent (StatusEffect_init c n d i) r = (ent', r')"
    by (cases "apply_status_effect nm ent (StatusEffect_init c n d i) r")
  have "stacked_once n d i (status_effects ent')"
    using apply_status_effect_first [OF n di none, of nm c r] s by simp
  then have "stacked_once n d i
      (status_effects (fst (apply_copies M nm ent' (StatusEffect_init c n d i) r')))"
    by (rule apply_copies_stacked [OF n])
  then have "stacked_once n d i
      (status_effects (fst (apply_copies N nm ent (StatusEffect_init c n d i) r)))"
    using s M by simp
  then show ?thesis using di by (auto simp: stacked_once_def list_all_iff)
qed

text \<open>
  Three copies of \<^verbatim>\<open>PoisonEffect(duration=3, intensity=2.0)\<close> on the player, with a
  generator whose draws are all 0 (so each stacking adds half the intensity): one
  Poison is listed, with intensity 4 and duration 3.
\<close>

theorem intensity_stacking_capped_witness:
  "''Poison'' \<in> set [''Poison'', ''Regeneration'', ''Strength'', ''Weakness'', ''Protection''] \<and>
   (0::real) \<le> 3 \<and> (0::real) \<le> 2 \<and> find_effect ''Poison'' (status_effects demo_player) = None \<and>
   (1::nat) \<le> 3 \<and>
   length (filter (\<lambda>e. name e = ''Poison'')
     (status_effects (fst (apply_copies 3 ''Player'' demo_player (PoisonEffect_init 3 2) demo_rng)))) = 1 \<and>
   map intensity
     (status_effects (fst (apply_copies 3 ''Player'' demo_player (PoisonEffect_init 3 2) demo_rng))) = [4] \<and>
   map duration
     (status_effects (fst (apply_copies 3 ''Player'' demo_player (PoisonEffect_init 3 2) demo_rng))) = [3]"
proof -
  have none: "find_effect ''Poison'' (status_effects demo_player) = None"
    by (simp add: demo_player_def Player_init_def)
  have fx: "status_effects (fst (apply_copies 3 ''Player'' demo_player (PoisonEffect_init 3 2) demo_rng)) =
      [(PoisonEffect_init 3 2)\<lparr>intensity := 4\<rparr>]"
    by (simp add: numeral_3_eq_3 apply_status_effect_def stack_effect_def apply_effect_def
        random_uniform_def random_random_def rng_tail_def demo_rng_def
        PoisonEffect_init_def StatusEffect_init_def demo_player_def Player_init_def Let_def)
  from intensity_stacking_capped [of "''Poison''" 3 2 demo_player 3 "''Player''" PoisonEffect demo_rng] none
  have "length (filter (\<lambda>e. name e = ''Poison'')
     (status_effects (fst (apply_copies 3 ''Player'' demo_player (PoisonEffect_init 3 2) demo_rng)))) = 1"
    by (simp add: PoisonEffect_init_def)
  with none fx show ?thesis
    by (simp add: PoisonEffect_init_def StatusEffect_init_def)
qed

section \<open>The combat-end check\<close>

text \<open>
  The check reads the roster and the player's health and never writes the roster: when
  it returns, combat has ended exactly if the roster was empty or the player's health
  was at most 0 (or combat was not on), and the roster is the one it was given.
\<close>

lemma check_combat_end_roster:
  assumes "check_combat_end g = Some g'"
  shows "enemies g' = enemies g"
    and "combat_mode g' \<longleftrightarrow> combat_mode g \<and> enemies g \<noteq> [] \<and> 0 < health (the_player g)"
  using assms
  by (auto simp: check_combat_end_def exit_combat_def log_combat_event_def Let_def
      split: if_splits Option.bind_splits)

lemma check_combat_end_returns:
  "turn_order g \<noteq> [] \<Longrightarrow> \<exists>g'. check_combat_end g = Some g'"
  by (simp add: check_combat_end_def log_combat_event_def get_current_turn_number_def Let_def)

text \<open>
  C3. The claim's second half is what \<open>check_combat_end\<close> does; its first half fails,
  because nothing removes a defeated enemy from the roster while combat is on (the only
  \<^verbatim>\<open>self.enemies.remove(enemy)\<close> sits in the exploration handler, under
  \<^verbatim>\<open>if player_action and not self.combat_mode\<close>). In the scenario the game has entered
  combat with its sole enemy, whose health is then 0: the combat-end check returns the
  game as it is, still in combat mode and with the enemy on the roster.
\<close>

theorem combat_end_check_keeps_dead_enemy:
  "map_option
     (\<lambda>g. (combat_mode g, map health (enemies g), check_combat_end g = Some g))
     (map_option sole_enemy_dead (enter_combat demo_game))
   = Some (True, [0], True)"
  by (simp add: enter_combat_def build_turn_order_def log_combat_event_def
      get_current_turn_number_def check_combat_end_def sole_enemy_dead_def demo_game_def
      demo_enemy_def Player_init_def Let_def)

section \<open>The movement cooldown\<close>

lemma is_blocked_total:
  "wf_map m \<Longrightarrow> \<exists>b. is_blocked m cx cy = Some b"
  by (auto simp: is_blocked_def grid_get_wf)

lemma get_terrain_damage_total:
  "wf_map m \<Longrightarrow> \<exists>d. get_terrain_damage m cx cy = Some d"
  by (auto simp: get_terrain_damage_def grid_get_wf)

lemma moved_from_eq:
  "moved_from self self' \<longleftrightarrow>
     self' = self\<lparr>xpos := xpos self', ypos := ypos self', health := health self'\<rparr>"
  unfolding moved_from_def by (cases self, cases self') auto

lemma moved_from_refl: "moved_from self self"
  by (simp add: moved_from_def)

lemma moved_from_trans:
  "moved_from a b \<Longrightarrow> moved_from b c \<Longrightarrow> moved_from a c"
  unfolding moved_from_def by (cases a, cases b, cases c) auto

lemma moved_from_fields:
  assumes "moved_from self self'"
  shows "enemy_cls self' = enemy_cls self" "move_cooldown self' = move_cooldown self"
    "speed self' = speed self" "preferred_distance self' = preferred_distance self"
    "heal_cooldown self' = heal_cooldown self" "heal_range self' = heal_range self"
    "detection_range self' = detection_range self" "strategy self' = strategy self"
  using assms unfolding moved_from_def by (cases self, cases self', auto)+

lemma Enemy_take_damage_moved_from:
  "moved_from self (Enemy_take_damage self d ign)"
  by (simp add: moved_from_def Enemy_take_damage_def Let_def)

lemma try_step_x_total:
  assumes "wf_map m"
  shows "\<exists>s b. try_step_x m p others self nx = Some (s, b) \<and> moved_from self s"
proof -
  obtain blocked where b: "is_blocked m nx (ypos self) = Some blocked"
    using is_blocked_total [OF assms] by blast
  obtain td where t: "get_terrain_damage m nx (ypos self) = Some td"
    using get_terrain_damage_total [OF assms] by blast
  have "moved_from self ((Enemy_take_damage self td False)\<lparr>xpos := nx\<rparr>)"
    by (simp add: moved_from_def Enemy_take_damage_def Let_def)
  moreover have "moved_from self (self\<lparr>xpos := nx\<rparr>)"
    by (simp add: moved_from_def)
  ultimately show ?thesis
    using b t by (auto simp: try_step_x_def Let_def moved_from_refl)
qed

lemma try_step_y_total:
  assumes "wf_map m"
  shows "\<exists>s b. try_step_y m p others self ny = Some (s, b) \<and> moved_from self s"
proof -
  obtain blocked where b: "is_blocked m (xpos self) ny = Some blocked"
    using is_blocked_total [OF assms] by blast
  obtain td where t: "get_terrain_damage m (xpos self) ny = Some td"
    using get_terrain_damage_total [OF assms] by blast
  have "moved_from self ((Enemy_take_damage self td False)\<lparr>ypos := ny\<rparr>)"
    by (simp add: moved_from_def Enemy_take_damage_def Let_def)
  moreover have "moved_from self (self\<lparr>ypos := ny\<rparr>)"
    by (simp add: moved_from_def)
  ultimately show ?thesis
    using b t by (auto simp: try_step_y_def Let_def moved_from_refl)
qed

lemma direct_move_total:
  assumes wf: "wf_map m"
  shows "\<exists>s. direct_move self dx dy m p others = Some s \<and> moved_from self s"
proof (cases "\<bar>dx\<bar> > \<bar>dy\<bar>")
  case True
  obtain s1 b1 where 1: "try_step_x m p others self (xpos self + (if dx > 0 then 1 else - 1)) = Some (s1, b1)"
    and m1: "moved_from self s1" using try_step_x_total [OF wf] by blast
  obtain s2 b2 where 2: "try_step_y m p others s1 (ypos s1 + (if dy > 0 then 1 else - 1)) = Some (s2, b2)"
    and m2: "moved_from s1 s2" using try_step_y_total [OF wf] by blast
  from m1 m2 have "moved_from self s2" by (rule moved_from_trans)
  with True 1 2 m1 show ?thesis by (cases b1) (simp_all add: direct_move_def)
next
  case False
  obtain s1 b1 where 1: "try_step_y m p others self (ypos self + (if dy > 0 then 1 else - 1)) = Some (s1, b1)"
    and m1: "moved_from self s1" using try_step_y_total [OF wf] by blast
  obtain s2 b2 where 2: "try_step_x m p others s1 (xpos s1 + (if dx > 0 then 1 else - 1)) = Some (s2, b2)"
    and m2: "moved_from s1 s2" using try_step_x_total [OF wf] by blast
  from m1 m2 have "moved_from self s2" by (rule moved_from_trans)
  with False 1 2 m1 show ?thesis by (cases b1) (simp_all add: direct_move_def)
qed

lemma flanking_move_total:
  assumes wf: "wf_map m"
  shows "\<exists>s r'. flanking_move self dx dy m p others r = Some (s, r') \<and> moved_from self s"
proof -
  obtain u r1 where u: "random_random r = (u, r1)" by (cases "random_random r")
  show ?thesis
  proof (cases "\<bar>dx\<bar> > \<bar>dy\<bar>")
    case True
    obtain s1 b1 where 1: "try_step_y m p others self (ypos self + (if u > 5 / 10 then 1 else - 1)) = Some (s1, b1)"
      and m1: "moved_from self s1" using try_step_y_total [OF wf] by blast
    obtain s2 where 2: "direct_move s1 dx dy m p others = Some s2" and m2: "moved_from s1 s2"
      using direct_move_total [OF wf] by blast
    from m1 m2 have "moved_from self s2" by (rule moved_from_trans)
    with True u 1 2 m1 show ?thesis by (cases b1) (simp_all add: flanking_move_def)
  next
    case False
    obtain s1 b1 where 1: "try_step_x m p others self (xpos self + (if u > 5 / 10 then 1 else - 1)) = Some (s1, b1)"
      and m1: "moved_from self s1" using try_step_x_total [OF wf] by blast
    obtain s2 where 2: "direct_move s1 dx dy m p others = Some s2" and m2: "moved_from s1 s2"
      using direct_move_total [OF wf] by blast
    from m1 m2 have "moved_from self s2" by (rule moved_from_trans)
    with False u 1 2 m1 show ?thesis by (cases b1) (simp_all add: flanking_move_def)
  qed
qed

lemma circling_move_total:
  assumes wf: "wf_map m"
  shows "\<exists>s. circling_move self dx dy m p others = Some s \<and> moved_from self s"
proof -
  define cd :: int where "cd = (if (xpos self + ypos self) mod 2 = 0 then 1 else - 1)"
  obtain s1 b1 where 1:
    "(if \<bar>dx\<bar> > \<bar>dy\<bar> then try_step_y m p others self (ypos self + cd)
      else try_step_x m p others self (xpos self + cd)) = Some (s1, b1)"
    and m1: "moved_from self s1"
    using try_step_x_total [OF wf, of p others self "xpos self + cd"]
      try_step_y_total [OF wf, of p others self "ypos self + cd"]
    by (cases "\<bar>dx\<bar> > \<bar>dy\<bar>") auto
  obtain s2 where 2: "direct_move s1 dx dy m p others = Some s2" and m2: "moved_from s1 s2"
    using direct_move_total [OF wf] by blast
  from m1 m2 have "moved_from self s2" by (rule moved_from_trans)
  with 1 2 m1 show ?thesis
    by (cases b1) (simp_all add: circling_move_def cd_def [symmetric] Let_def)
qed

text \<open>The two gated outcomes, shared by all six classes.\<close>

lemma move_towards_gated:
  shows "\<not> fst (can_act self r) \<Longrightarrow>
      move_towards self tx ty m p others r = Some (self, others, snd (can_act self r))"
    and "fst (can_act self r) \<Longrightarrow> 0 < move_cooldown self \<Longrightarrow>
      move_towards self tx ty m p others r =
        Some (self\<lparr>move_cooldown := move_cooldown self - 1\<rparr>, others, snd (can_act self r))"
  by (cases "enemy_cls self";
      simp add: move_towards_def Enemy_move_towards_def FastEnemy_move_towards_def
        TankEnemy_move_towards_def SniperEnemy_move_towards_def HealerEnemy_move_towards_def
        StealthEnemy_move_towards_def case_prod_beta)+

lemma random_randint_0_2:
  "fst (random_randint 0 2 r) \<in> {0, 1, 2}"
proof -
  have "r 0 mod 3 < 3" by simp
  then have "r 0 mod 3 = 0 \<or> r 0 mod 3 = 1 \<or> r 0 mod 3 = 2" by linarith
  then show ?thesis by (auto simp: random_randint_def)
qed

lemma Enemy_move_towards_fires:
  assumes wf: "wf_map m" and act: "fst (can_act self r)" and cd: "move_cooldown self \<le> 0"
  shows "\<exists>s os r'. Enemy_move_towards self tx ty m p others r = Some (s, os, r') \<and>
           move_cooldown s \<in> {0, 1, 2}"
proof -
  obtain r0 where a: "can_act self r = (True, r0)" using act by (cases "can_act self r") auto
  let ?dx = "tx - xpos self" and ?dy = "ty - ypos self"
  obtain sd where sd: "direct_move self ?dx ?dy m p others = Some sd"
    using direct_move_total [OF wf] by blast
  obtain sf rf where sf: "flanking_move self ?dx ?dy m p others r0 = Some (sf, rf)"
    using flanking_move_total [OF wf] by blast
  obtain sc where sc: "circling_move self ?dx ?dy m p others = Some sc"
    using circling_move_total [OF wf] by blast
  have "\<exists>s1 r1.
    (if strategy self = ''direct'' then
        do { s \<leftarrow> direct_move self ?dx ?dy m p others; Some (s, r0) }
      else if strategy self = ''flanking'' then flanking_move self ?dx ?dy m p others r0
      else if strategy self = ''circling'' then
        do { s \<leftarrow> circling_move self ?dx ?dy m p others; Some (s, r0) }
      else Some (self, r0)) = Some (s1, r1)"
    by (simp add: sd sf sc)
  then obtain s1 r1 where 1:
    "(if strategy self = ''direct'' then
        do { s \<leftarrow> direct_move self ?dx ?dy m p others; Some (s, r0) }
      else if strategy self = ''flanking'' then flanking_move self ?dx ?dy m p others r0
      else if strategy self = ''circling'' then
        do { s \<leftarrow> circling_move self ?dx ?dy m p others; Some (s, r0) }
      else Some (self, r0)) = Some (s1, r1)" by blast
  obtain u r2 where u: "random_random r1 = (u, r2)" by (cases "random_random r1")
  have "\<exists>s3 r3.
    (if u < 5 / 100 then do {
        (st, r) \<leftarrow> random_choice [''direct'', ''flanking'', ''circling''] r2;
        Some (s1\<lparr>strategy := st\<rparr>, r) }
      else Some (s1, r2)) = Some (s3, r3)"
    by (simp add: random_choice_def)
  then obtain s3 r3 where 3:
    "(if u < 5 / 100 then do {
        (st, r) \<leftarrow> random_choice [''direct'', ''flanking'', ''circling''] r2;
        Some (s1\<lparr>strategy := st\<rparr>, r) }
      else Some (s1, r2)) = Some (s3, r3)" by blast
  obtain c r4 where c: "random_randint 0 2 r3 = (c, r4)" by (cases "random_randint 0 2 r3")
  have "c \<in> {0, 1, 2}" using random_randint_0_2 [of r3] c by simp
  moreover have "Enemy_move_towards self tx ty m p others r = Some (s3\<lparr>move_cooldown := c\<rparr>, others, r4)"
    using a cd 1 u 3 c by (simp add: Enemy_move_towards_def Let_def)
  ultimately show ?thesis by auto
qed

lemma FastEnemy_move_towards_fires:
  assumes wf: "wf_map m" and act: "fst (can_act self r)" and cd: "move_cooldown self \<le> 0"
    and sp: "speed self = Some sp"
  shows "\<exists>s os r'. FastEnemy_move_towards self tx ty m p others r = Some (s, os, r') \<and>
           move_cooldown s = sp - 1"
proof -
  obtain r0 where a: "can_act self r = (True, r0)" using act by (cases "can_act self r") auto
  obtain s1 where 1: "direct_move self (tx - xpos self) (ty - ypos self) m p others = Some s1"
    and m1: "moved_from self s1" using direct_move_total [OF wf] by blast
  have "speed s1 = Some sp" using moved_from_fields(3) [OF m1] sp by simp
  with a cd 1 show ?thesis by (simp add: FastEnemy_move_towards_def Let_def)
qed

lemma TankEnemy_move_towards_fires:
  assumes wf: "wf_map m" and act: "fst (can_act self r)" and cd: "move_cooldown self \<le> 0"
    and sp: "speed self = Some sp"
  shows "\<exists>s os r'. TankEnemy_move_towards self tx ty m p others r = Some (s, os, r') \<and>
           move_cooldown s = sp - 1"
proof -
  obtain r0 where a: "can_act self r = (True, r0)" using act by (cases "can_act self r") auto
  obtain s1 where 1: "circling_move self (tx - xpos self) (ty - ypos self) m p others = Some s1"
    and m1: "moved_from self s1" using circling_move_total [OF wf] by blast
  have "speed s1 = Some sp" using moved_from_fields(3) [OF m1] sp by simp
  with a cd 1 show ?thesis by (simp add: TankEnemy_move_towards_def Let_def)
qed

lemma SniperEnemy_move_towards_fires:
  assumes wf: "wf_map m" and act: "fst (can_act self r)" and cd: "move_cooldown self \<le> 0"
    and sp: "speed self = Some sp" and pd: "preferred_distance self = Some pd"
  shows "\<exists>s os r'. SniperEnemy_move_towards self tx ty m p others r = Some (s, os, r') \<and>
           move_cooldown s = sp - 1"
proof -
  obtain r0 where a: "can_act self r = (True, r0)" using act by (cases "can_act self r") auto
  let ?dx = "tx - xpos self" and ?dy = "ty - ypos self"
  obtain sx bx where sx: "try_step_x m p others self (xpos self - (if ?dx > 0 then 1 else - 1)) = Some (sx, bx)"
    and mx: "moved_from self sx" using try_step_x_total [OF wf] by blast
  obtain sy b where sy: "try_step_y m p others self (ypos self - (if ?dy > 0 then 1 else - 1)) = Some (sy, b)"
    and my: "moved_from self sy" using try_step_y_total [OF wf] by blast
  obtain sf rf where sf: "flanking_move self ?dx ?dy m p others r0 = Some (sf, rf)"
    and mf: "moved_from self sf" using flanking_move_total [OF wf] by blast
  define res where "res =
    (if \<bar>?dx\<bar> + \<bar>?dy\<bar> < pd then
        (if \<bar>?dx\<bar> > \<bar>?dy\<bar> then do {
           (s, moved) \<leftarrow> try_step_x m p others self (xpos self - (if ?dx > 0 then 1 else - 1));
           Some (s, r0) }
         else do {
           (s, moved) \<leftarrow> try_step_y m p others self (ypos self - (if ?dy > 0 then 1 else - 1));
           Some (s, r0) })
      else flanking_move self ?dx ?dy m p others r0)"
  have "\<exists>s1 r1. res = Some (s1, r1) \<and> moved_from self s1"
  proof (cases "\<bar>?dx\<bar> + \<bar>?dy\<bar> < pd")
    case near: True
    show ?thesis
    proof (cases "\<bar>?dx\<bar> > \<bar>?dy\<bar>")
      case True
      with near have "res = Some (sx, r0)" unfolding res_def by (simp only: if_True sx) simp
      with mx show ?thesis by blast
    next
      case False
      with near have "res = Some (sy, r0)" unfolding res_def by (simp only: if_True if_False sy) simp
      with my show ?thesis by blast
    qed
  next
    case False
    then have "res = Some (sf, rf)" unfolding res_def by (simp only: if_False sf)
    with mf show ?thesis by blast
  qed
  then obtain s1 r1 where 1: "res = Some (s1, r1)" and m1: "moved_from self s1" by blast
  have "speed s1 = Some sp" using moved_from_fields(3) [OF m1] sp by simp
  with a cd 1 pd show ?thesis
    by (simp add: SniperEnemy_move_towards_def Let_def res_def [symmetric])
qed

lemma try_heal_allies_total:
  assumes "heal_range self = Some hr" "heal_cooldown self \<noteq> None"
  shows "\<exists>s os. try_heal_allies self others = Some (s, os) \<and> speed s = speed self \<and>
           heal_cooldown s \<noteq> None"
  using assms by (auto simp: try_heal_allies_def Let_def)

lemma HealerEnemy_move_towards_fires:
  assumes wf: "wf_map m" and act: "fst (can_act self r)" and cd: "move_cooldown self \<le> 0"
    and sp: "speed self = Some sp" and hc: "heal_cooldown self = Some hc"
    and hr: "heal_range self = Some hr"
  shows "\<exists>s os r'. HealerEnemy_move_towards self tx ty m p others r = Some (s, os, r') \<and>
           move_cooldown s = sp - 1"
proof -
  obtain r0 where a: "can_act self r = (True, r0)" using act by (cases "can_act self r") auto
  obtain s1 os1 where 1:
    "(if hc \<le> 0 then try_heal_allies self others else Some (self, others)) = Some (s1, os1)"
    and sp1: "speed s1 = Some sp" and hc1: "heal_cooldown s1 \<noteq> None"
    using try_heal_allies_total [OF hr, of others] sp hc by (cases "hc \<le> 0") auto
  obtain s2 r2 where 2: "flanking_move s1 (tx - xpos s1) (ty - ypos s1) m p os1 r0 = Some (s2, r2)"
    and m2: "moved_from s1 s2" using flanking_move_total [OF wf] by blast
  have sp2: "speed s2 = Some sp" using moved_from_fields(3) [OF m2] sp1 by simp
  obtain hc2 where hc2: "heal_cooldown s2 = Some hc2"
    using moved_from_fields(5) [OF m2] hc1 by auto
  from a cd hc 1 2 sp2 hc2 show ?thesis
    by (simp add: HealerEnemy_move_towards_def Let_def)
qed

lemma StealthEnemy_move_towards_fires:
  assumes wf: "wf_map m" and act: "fst (can_act self r)" and cd: "move_cooldown self \<le> 0"
    and sp: "speed self = Some sp" and dr: "detection_range self = Some dr"
  shows "\<exists>s os r'. StealthEnemy_move_towards self tx ty m p others r = Some (s, os, r') \<and>
           move_cooldown s = sp - 1"
proof -
  obtain r0 where a: "can_act self r = (True, r0)" using act by (cases "can_act self r") auto
  let ?dx = "tx - xpos self" and ?dy = "ty - ypos self"
  obtain u ru where u: "random_random r0 = (u, ru)" by (cases "random_random r0")
  obtain sf rf where sf: "flanking_move self ?dx ?dy m p others r0 = Some (sf, rf)"
    and mf: "moved_from self sf" using flanking_move_total [OF wf] by blast
  obtain sd where sd: "direct_move self ?dx ?dy m p others = Some sd"
    and md: "moved_from self sd" using direct_move_total [OF wf] by blast
  define res where "res =
    (if \<bar>?dx\<bar> + \<bar>?dy\<bar> \<le> dr then flanking_move self ?dx ?dy m p others r0
      else
        (let (u, r) = random_random r0 in
         if u < 3 / 10 then
           do { s \<leftarrow> direct_move self ?dx ?dy m p others; Some (s, r) }
         else Some (self, r)))"
  have "\<exists>s1 r1. res = Some (s1, r1) \<and> moved_from self s1"
    unfolding res_def using mf md by (simp add: sf sd u moved_from_refl)
  then obtain s1 r1 where 1: "res = Some (s1, r1)" and m1: "moved_from self s1" by blast
  have "speed s1 = Some sp" using moved_from_fields(3) [OF m1] sp by simp
  with a cd 1 dr show ?thesis
    by (simp add: StealthEnemy_move_towards_def Let_def res_def [symmetric])
qed

lemma wf_enemy_speed:
  "wf_enemy self \<Longrightarrow> enemy_cls self \<noteq> Enemy \<Longrightarrow> \<exists>sp. speed self = Some sp"
  by (cases "enemy_cls self") (auto simp: wf_enemy_def)

lemma move_towards_fires:
  assumes wf: "wf_map m" and we: "wf_enemy self"
    and act: "fst (can_act self r)" and cd: "move_cooldown self \<le> 0"
  shows "\<exists>s os r'. move_towards self tx ty m p others r = Some (s, os, r') \<and>
    (if enemy_cls self = Enemy then move_cooldown s \<in> {0, 1, 2}
     else Some (move_cooldown s) = map_option (\<lambda>sp. sp - 1) (speed self))"
proof (cases "enemy_cls self")
  case Enemy
  then show ?thesis
    using Enemy_move_towards_fires [OF wf act cd, of tx ty p others]
    by (simp add: move_towards_def)
next
  case FastEnemy
  with we obtain sp where "speed self = Some sp" by (auto simp: wf_enemy_def)
  with FastEnemy show ?thesis
    using FastEnemy_move_towards_fires [OF wf act cd, of sp tx ty p others]
    by (auto simp: move_towards_def)
next
  case TankEnemy
  with we obtain sp where "speed self = Some sp" by (auto simp: wf_enemy_def)
  with TankEnemy show ?thesis
    using TankEnemy_move_towards_fires [OF wf act cd, of sp tx ty p others]
    by (auto simp: move_towards_def)
next
  case SniperEnemy
  with we obtain sp pd where "speed self = Some sp" "preferred_distance self = Some pd"
    by (auto simp: wf_enemy_def)
  with SniperEnemy show ?thesis
    using SniperEnemy_move_towards_fires [OF wf act cd, of sp pd tx ty p others]
    by (auto simp: move_towards_def)
next
  case HealerEnemy
  with we obtain sp hc hr where "speed self = Some sp" "heal_cooldown self = Some hc"
    "heal_range self = Some hr" by (auto simp: wf_enemy_def)
  with HealerEnemy show ?thesis
    using HealerEnemy_move_towards_fires [OF wf act cd, of sp hc hr tx ty p others]
    by (auto simp: move_towards_def)
next
  case StealthEnemy
  with we obtain sp dr where "speed self = Some sp" "detection_range self = Some dr"
    by (auto simp: wf_enemy_def)
  with StealthEnemy show ?thesis
    using StealthEnemy_move_towards_fires [OF wf act cd, of sp dr tx ty p others]
    by (auto simp: move_towards_def)
qed

text \<open>
  C8, as the claim states it, fails in two places. An enemy that cannot act (here a
  paralyzed FastEnemy whose cooldown is 1) returns before the cooldown is looked at: the
  tick leaves the cooldown at 1. And the base class has no \<^verbatim>\<open>speed\<close>: after its move
  attempt the cooldown is the drawn number (here 2, with a generator whose draws are 2).
\<close>

theorem move_cooldown_gate_counterexample:
  "move_cooldown paralyzed_fast_enemy = 1 \<and>
   move_towards paralyzed_fast_enemy 3 3 room_map (Player_init 3 3 100) [] demo_rng =
     Some (paralyzed_fast_enemy, [], demo_rng) \<and>
   map_option (\<lambda>(e, os, r'). (move_cooldown e, speed e))
     (move_towards demo_enemy 3 3 room_map (Player_init 3 3 100) [] (\<lambda>n. 2)) = Some (2, None)"
proof -
  have a: "move_cooldown paralyzed_fast_enemy = 1"
    by (simp add: paralyzed_fast_enemy_def)
  have b: "move_towards paralyzed_fast_enemy 3 3 room_map (Player_init 3 3 100) [] demo_rng =
     Some (paralyzed_fast_enemy, [], demo_rng)"
    by (simp add: move_towards_def FastEnemy_move_towards_def can_act_def paralyzed_fast_enemy_def)
  have c: "direct_move demo_enemy 2 2 room_map (Player_init 3 3 100) [] = Some (demo_enemy\<lparr>ypos := 2\<rparr>)"
    by (simp add: direct_move_def try_step_y_def is_blocked_def get_terrain_damage_def grid_get_def
        py_index_def would_collide_with_enemy_def room_map_def demo_enemy_def Player_init_def)
  have d: "move_towards demo_enemy 3 3 room_map (Player_init 3 3 100) [] (\<lambda>n. 2) =
      Some (demo_enemy\<lparr>ypos := 2, strategy := ''circling'', move_cooldown := 2\<rparr>, [], \<lambda>n. 2)"
  proof -
    have e: "enemy_cls demo_enemy = Enemy" "\<not> paralyzed demo_enemy" "\<not> slowed demo_enemy"
      "move_cooldown demo_enemy = 0" "strategy demo_enemy = ''direct''"
      "xpos demo_enemy = 1" "ypos demo_enemy = 1"
      by (simp_all add: demo_enemy_def)
    show ?thesis
      by (simp add: move_towards_def Enemy_move_towards_def can_act_def e c
          random_random_def random_choice_def random_randint_def rng_tail_def)
  qed
  have "speed demo_enemy = None" by (simp add: demo_enemy_def)
  with a b d show ?thesis by simp
qed

text \<open>
  C8, amended. On a map of \<open>height\<close> rows of \<open>width\<close> cells, a tick of any enemy that
  its class's constructor has set up returns, and:
  \<^item> an enemy that cannot act this tick (paralyzed, or slowed and skipped by the draw)
    is left as it is, cooldown included;
  \<^item> an enemy that can act and whose cooldown is above 0 has the cooldown decremented,
    and nothing else changes: it does not move;
  \<^item> an enemy that can act and whose cooldown is 0 (or below) attempts its move, and
    afterwards its cooldown is \<open>speed - 1\<close> for the five classes that have a speed, and
    a number from 0 to 2 for the base class.
  In the first two cases the other enemies are unchanged too.
\<close>

theorem move_cooldown_gate:
  "wf_map m \<Longrightarrow> wf_enemy self \<Longrightarrow>
     \<exists>self' others' r'. move_towards self tx ty m p others r = Some (self', others', r') \<and>
       (\<not> fst (can_act self r) \<longrightarrow> self' = self \<and> others' = others) \<and>
       (fst (can_act self r) \<and> 0 < move_cooldown self \<longrightarrow>
          self' = self\<lparr>move_cooldown := move_cooldown self - 1\<rparr> \<and> others' = others) \<and>
       (fst (can_act self r) \<and> move_cooldown self \<le> 0 \<longrightarrow>
          (if enemy_cls self = Enemy then move_cooldown self' \<in> {0, 1, 2}
           else Some (move_cooldown self') = map_option (\<lambda>sp. sp - 1) (speed self)))"
proof -
  assume wf: "wf_map m" and we: "wf_enemy self"
  consider (idle) "\<not> fst (can_act self r)"
    | (wait) "fst (can_act self r)" "0 < move_cooldown self"
    | (fire) "fst (can_act self r)" "move_cooldown self \<le> 0"
    by linarith
  then show ?thesis
  proof cases
    case idle
    then show ?thesis using move_towards_gated(1) [of self r tx ty m p others] by simp
  next
    case wait
    then show ?thesis using move_towards_gated(2) [of self r tx ty m p others] by simp
  next
    case fire
    from move_towards_fires [OF wf we fire, of tx ty p others] obtain s os r'
      where "move_towards self tx ty m p others r = Some (s, os, r')"
        and "if enemy_cls self = Enemy then move_cooldown s \<in> {0, 1, 2}
             else Some (move_cooldown s) = map_option (\<lambda>sp. sp - 1) (speed self)"
      by blast
    with fire show ?thesis by simp
  qed
qed

text \<open>
  Two ticks of a FastEnemy (speed 2) at (1, 1) towards a player at (3, 3): the first
  steps to (1, 2) and sets the cooldown to 1, the second only decrements it.
\<close>

theorem move_cooldown_gate_witness:
  "wf_map room_map \<and> wf_enemy fast_enemy \<and>
   move_towards fast_enemy 3 3 room_map (Player_init 3 3 100) [] demo_rng =
     Some (fast_enemy\<lparr>ypos := 2, move_cooldown := 1\<rparr>, [], demo_rng) \<and>
   move_towards (fast_enemy\<lparr>ypos := 2, move_cooldown := 1\<rparr>) 3 3 room_map (Player_init 3 3 100) [] demo_rng =
     Some (fast_enemy\<lparr>ypos := 2, move_cooldown := 0\<rparr>, [], demo_rng)"
proof -
  have wf: "wf_map room_map" by (simp add: wf_map_def room_map_def)
  have we: "wf_enemy fast_enemy" by (simp add: wf_enemy_def fast_enemy_def)
  have e: "enemy_cls fast_enemy = FastEnemy" "\<not> paralyzed fast_enemy" "\<not> slowed fast_enemy"
    "move_cooldown fast_enemy = 0" "speed fast_enemy = Some 2"
    "xpos fast_enemy = 1" "ypos fast_enemy = 1"
    by (simp_all add: fast_enemy_def demo_enemy_def)
  have act: "can_act fast_enemy demo_rng = (True, demo_rng)" by (simp add: can_act_def e)
  have c: "direct_move fast_enemy 2 2 room_map (Player_init 3 3 100) [] = Some (fast_enemy\<lparr>ypos := 2\<rparr>)"
    by (simp add: direct_move_def try_step_y_def is_blocked_def get_terrain_damage_def grid_get_def
        py_index_def would_collide_with_enemy_def room_map_def e Player_init_def)
  have first: "move_towards fast_enemy 3 3 room_map (Player_init 3 3 100) [] demo_rng =
     Some (fast_enemy\<lparr>ypos := 2, move_cooldown := 1\<rparr>, [], demo_rng)"
    by (simp add: move_towards_def FastEnemy_move_towards_def act e c)
  have we2: "wf_enemy (fast_enemy\<lparr>ypos := 2, move_cooldown := 1\<rparr>)"
    by (simp add: wf_enemy_def fast_enemy_def)
  have act2: "can_act (fast_enemy\<lparr>ypos := 2, move_cooldown := 1\<rparr>) demo_rng = (True, demo_rng)"
    by (simp add: can_act_def e)
  from move_cooldown_gate [OF wf we2, of 3 3 "Player_init 3 3 100" "[]" demo_rng] act2
  have second: "move_towards (fast_enemy\<lparr>ypos := 2, move_cooldown := 1\<rparr>) 3 3 room_map
      (Player_init 3 3 100) [] demo_rng =
     Some (fast_enemy\<lparr>ypos := 2, move_cooldown := 0\<rparr>, [], demo_rng)"
    by (auto simp: move_towards_gated(2) act2)
  from wf we first second show ?thesis by simp
qed

section \<open>Shots: what the loops have in common\<close>


lemma Enemy_take_damage_pos:
  "xpos (Enemy_take_damage e d ign) = xpos e" "ypos (Enemy_take_damage e d ign) = ypos e"
  by (simp_all add: Enemy_take_damage_def Let_def)











section \<open>The rail gun and the pistol on a line of enemies\<close>












section \<open>The grenade launcher\<close>


lemma blast_damage_pos:
  "xpos (blast_damage m dmg ix iy offs e) = xpos e" "ypos (blast_damage m dmg ix iy offs e) = ypos e"
  by (simp_all add: blast_damage_def Enemy_take_damage_pos)













end
